theory Spec2Isabelle
  imports Complex_Main "HOL-Library.Sublist" "HOL-Library.Char_ord" "HOL-Library.List_Lexorder"
begin

section \<open>Python values\<close>

text \<open>
  The tracker reads schema-less JSON from the market-data API, so the model keeps the
  values dynamically typed, as \<^verbatim>\<open>resp.json()\<close> returns them. \<open>JNum x\<close> is a Python
  \<^verbatim>\<open>int\<close> or finite \<^verbatim>\<open>float\<close> by its exact value \<open>x\<close>, so that Python's
  \<^verbatim>\<open>1 == 1.0\<close> is equality; a body in which a number reads as an infinite float or as
  NaN is outside the model. A \<open>JObj\<close> holds the items of the parsed dict in insertion
  order, its keys distinct.

  A \<open>pyfloat\<close> is a Python \<^verbatim>\<open>float\<close>: \<open>Float x\<close> the finite one of value \<open>x\<close>.
  What \<^verbatim>\<open>float()\<close> and the float operations give is the runtime's (they round and
  overflow) and is taken from the environment.

  A \<open>string\<close> is the UTF-8 text of a Python \<^verbatim>\<open>str\<close>: ASCII characters are one
  \<open>char\<close> each, and \<open>py_len\<close> and the slices count code points as Python does.
\<close>

datatype json =
    JNull
  | JBool bool
  | JNum rat
  | JStr string
  | JArr "json list"
  | JObj "(string \<times> json) list"

datatype pyfloat = Float rat | PosInf | NegInf | NaN

fun positive :: "pyfloat \<Rightarrow> bool" where
  \<comment> \<open>\<^verbatim>\<open>x > 0\<close>\<close>
  "positive (Float x) = (0 < x)"
| "positive PosInf = True"
| "positive NegInf = False"
| "positive NaN = False"

datatype error = TypeError | ValueError | AttributeError | OverflowError

text \<open>Truth value testing: \<^verbatim>\<open>not x\<close>, \<^verbatim>\<open>x or 0\<close>, \<^verbatim>\<open>if x:\<close>.\<close>

fun truthy :: "json \<Rightarrow> bool" where
  "truthy JNull = False"
| "truthy (JBool b) = b"
| "truthy (JNum x) = (x \<noteq> 0)"
| "truthy (JStr s) = (s \<noteq> [])"
| "truthy (JArr xs) = (xs \<noteq> [])"
| "truthy (JObj kvs) = (kvs \<noteq> [])"

definition py_or :: "json \<Rightarrow> json \<Rightarrow> json" where
  "py_or x d = (if truthy x then x else d)"

text \<open>\<^verbatim>\<open>isinstance(act, dict)\<close> and \<^verbatim>\<open>act.get(key, default)\<close>.\<close>

fun is_dict :: "json \<Rightarrow> bool" where
  "is_dict (JObj kvs) = True"
| "is_dict _ = False"

fun dict_get :: "json \<Rightarrow> string \<Rightarrow> json \<Rightarrow> json" where
  "dict_get (JObj kvs) k d = (case map_of kvs k of None \<Rightarrow> d | Some v \<Rightarrow> v)"
| "dict_get _ k d = d"

text \<open>
  Lists and dicts are unhashable: using one as a set element or a dict key raises
  TypeError. Equal keys are one key, and \<^verbatim>\<open>True == 1\<close>, \<^verbatim>\<open>False == 0\<close>: \<open>py_key\<close>
  is the representative a set or dict compares by.
\<close>

fun hashable :: "json \<Rightarrow> bool" where
  "hashable (JArr xs) = False"
| "hashable (JObj kvs) = False"
| "hashable _ = True"

fun py_key :: "json \<Rightarrow> json" where
  "py_key (JBool b) = JNum (if b then 1 else 0)"
| "py_key x = x"

subsection \<open>Strings\<close>

definition is_cont :: "char \<Rightarrow> bool" where
  "is_cont c = (128 \<le> (of_char c :: nat) \<and> (of_char c :: nat) < 192)"

definition py_len :: "string \<Rightarrow> nat" where
  "py_len s = length (filter (\<lambda>c. \<not> is_cont c) s)"

text \<open>The code points of a text, each with its continuation bytes.\<close>

function code_points :: "string \<Rightarrow> string list" where
  "code_points [] = []"
| "code_points (c # s) = (c # takeWhile is_cont s) # code_points (dropWhile is_cont s)"
  by pat_completeness auto
termination
  by (relation "measure length") (auto simp: length_dropWhile_le less_Suc_eq_le)

definition py_take :: "nat \<Rightarrow> string \<Rightarrow> string" where
  \<comment> \<open>\<^verbatim>\<open>s[:n]\<close>\<close>
  "py_take n s = concat (take n (code_points s))"

definition py_last :: "nat \<Rightarrow> 'a list \<Rightarrow> 'a list" where
  \<comment> \<open>\<^verbatim>\<open>xs[-n:]\<close> for \<open>n > 0\<close>: the last \<open>n\<close> elements, all of them when there are fewer\<close>
  "py_last n xs = drop (length xs - n) xs"

definition py_suffix :: "nat \<Rightarrow> string \<Rightarrow> string" where
  \<comment> \<open>\<^verbatim>\<open>s[-n:]\<close> on a text\<close>
  "py_suffix n s = concat (py_last n (code_points s))"

text \<open>
  \<^verbatim>\<open>str.upper\<close>, \<^verbatim>\<open>str.lower\<close>, \<^verbatim>\<open>str.strip\<close> and \<^verbatim>\<open>str.split\<close> on a text that is
  all ASCII, where they are these functions. On any other text they follow the Unicode
  tables of the runtime (the environment below).
\<close>

definition is_ascii :: "string \<Rightarrow> bool" where
  "is_ascii s = list_all (\<lambda>c. (of_char c :: nat) < 128) s"

definition upper_char :: "char \<Rightarrow> char" where
  "upper_char c = (let n = (of_char c :: nat) in if 97 \<le> n \<and> n \<le> 122 then char_of (n - 32) else c)"

definition lower_char :: "char \<Rightarrow> char" where
  "lower_char c = (let n = (of_char c :: nat) in if 65 \<le> n \<and> n \<le> 90 then char_of (n + 32) else c)"

definition ascii_upper :: "string \<Rightarrow> string" where
  "ascii_upper s = map upper_char s"

definition ascii_lower :: "string \<Rightarrow> string" where
  "ascii_lower s = map lower_char s"

definition is_space :: "char \<Rightarrow> bool" where
  "is_space c = (let n = (of_char c :: nat) in (9 \<le> n \<and> n \<le> 13) \<or> (28 \<le> n \<and> n \<le> 32))"

definition ascii_strip :: "string \<Rightarrow> string" where
  "ascii_strip s = rev (dropWhile is_space (rev (dropWhile is_space s)))"

function ascii_split :: "string \<Rightarrow> string list" where
  \<comment> \<open>the maximal runs without whitespace\<close>
  "ascii_split s =
     (let s' = dropWhile is_space s
      in if s' = [] then []
         else takeWhile (\<lambda>c. \<not> is_space c) s' # ascii_split (dropWhile (\<lambda>c. \<not> is_space c) s'))"
  by pat_completeness auto
termination
proof (relation "measure length", goal_cases)
  case 1
  show ?case by simp
next
  case (2 s x)
  then have ne: "x \<noteq> []" and x: "x = dropWhile is_space s" by auto
  from ne x have "\<not> is_space (hd x)" using hd_dropWhile [of is_space s] by simp
  with ne have "dropWhile (\<lambda>c. \<not> is_space c) x = dropWhile (\<lambda>c. \<not> is_space c) (tl x)"
    by (cases x) auto
  then have "length (dropWhile (\<lambda>c. \<not> is_space c) x) \<le> length (tl x)"
    using length_dropWhile_le [of "\<lambda>c. \<not> is_space c" "tl x"] by metis
  also have "\<dots> < length x" using ne by (cases x) auto
  also have "length x \<le> length s" using x by (simp add: length_dropWhile_le)
  finally show ?case by simp
qed

declare ascii_split.simps [simp del]

definition startswith :: "string \<Rightarrow> string \<Rightarrow> bool" where
  "startswith s p = (take (length p) s = p)"

fun join :: "string \<Rightarrow> string list \<Rightarrow> string" where
  "join sep [] = []"
| "join sep [x] = x"
| "join sep (x # y # ys) = x @ sep @ join sep (y # ys)"

text \<open>The decimal text of a natural number, as an f-string prints an \<^verbatim>\<open>int\<close>.\<close>

fun str_nat :: "nat \<Rightarrow> string" where
  "str_nat n = (if n < 10 then [char_of (48 + n)] else str_nat (n div 10) @ [char_of (48 + n mod 10)])"

declare str_nat.simps [simp del]

text \<open>Pictographs and accented letters of the message templates, in UTF-8.\<close>

definition cross_mark :: string where
  "cross_mark = [char_of (0xE2::nat), char_of (0x9D::nat), char_of (0x8C::nat)]"

definition check_mark :: string where
  "check_mark = [char_of (0xE2::nat), char_of (0x9C::nat), char_of (0x85::nat)]"

definition name_badge :: string where
  "name_badge = [char_of (0xF0::nat), char_of (0x9F::nat), char_of (0x93::nat), char_of (0x9B::nat)]"

definition purse :: string where
  "purse = [char_of (0xF0::nat), char_of (0x9F::nat), char_of (0x91::nat), char_of (0x9B::nat)]"

definition bar_chart :: string where
  "bar_chart = [char_of (0xF0::nat), char_of (0x9F::nat), char_of (0x93::nat), char_of (0x8A::nat)]"

definition green_circle :: string where
  "green_circle = [char_of (0xF0::nat), char_of (0x9F::nat), char_of (0x9F::nat), char_of (0xA2::nat)]"

definition red_circle :: string where
  "red_circle = [char_of (0xF0::nat), char_of (0x9F::nat), char_of (0x94::nat), char_of (0xB4::nat)]"

definition dart :: string where
  "dart = [char_of (0xF0::nat), char_of (0x9F::nat), char_of (0x8E::nat), char_of (0xAF::nat)]"

definition money_bag :: string where
  "money_bag = [char_of (0xF0::nat), char_of (0x9F::nat), char_of (0x92::nat), char_of (0xB0::nat)]"

definition alarm_clock :: string where
  "alarm_clock = [char_of (0xE2::nat), char_of (0x8F::nat), char_of (0xB0::nat)]"

definition fire_sign :: string where
  "fire_sign = [char_of (0xF0::nat), char_of (0x9F::nat), char_of (0x94::nat), char_of (0xA5::nat)]"

definition right_arrow :: string where
  "right_arrow = [char_of (0xE2::nat), char_of (0x86::nat), char_of (0x92::nat)]"

definition e_acute :: string where
  "e_acute = [char_of (0xC3::nat), char_of (0xA9::nat)]"

definition E_acute :: string where
  "E_acute = [char_of (0xC3::nat), char_of (0x89::nat)]"

section \<open>The environment\<close>

text \<open>
  What the program takes from outside itself during one pass: the HTTP exchange with the
  data API, the outcome of a delivery to the Telegram channel, the clock, and the parts
  of the Python runtime that the language leaves open or that are library code:
  \<^verbatim>\<open>float()\<close> on a number (\<open>to_float\<close>, None for OverflowError) and on a text
  (\<open>float_of_str\<close>, None for ValueError), the float sum \<open>a + b\<close> (\<open>fadd\<close>), the
  builtin \<^verbatim>\<open>sum\<close> of a list of floats (\<open>fsum\<close>), the quotient of a float by a length
  (\<open>fdiv\<close>), number and value formatting, the Unicode case mapping and whitespace of
  texts that are not all ASCII, and the iteration order of a set.
\<close>

datatype response =
    Transport_error
  | Response nat "json option"

record env =
  fetch :: "string \<Rightarrow> nat \<Rightarrow> response"
  deliver :: "string \<Rightarrow> bool"
  to_float :: "rat \<Rightarrow> pyfloat option"
  float_of_str :: "string \<Rightarrow> pyfloat option"
  fadd :: "pyfloat \<Rightarrow> pyfloat \<Rightarrow> pyfloat"
  fsum :: "pyfloat list \<Rightarrow> pyfloat"
  fdiv :: "pyfloat \<Rightarrow> nat \<Rightarrow> pyfloat"
  format_float :: "string \<Rightarrow> pyfloat \<Rightarrow> string"
  repr :: "json \<Rightarrow> string"
  strftime :: "string \<Rightarrow> string"
  unicode_upper :: "string \<Rightarrow> string"
  unicode_lower :: "string \<Rightarrow> string"
  unicode_strip :: "string \<Rightarrow> string"
  unicode_split :: "string \<Rightarrow> string list"
  list_of_keys :: "json set \<Rightarrow> json list"
  list_of_names :: "string set \<Rightarrow> string list"

text \<open>
  \<open>Response status body\<close> is a completed request; its body is None when
  \<^verbatim>\<open>resp.json()\<close> raises. \<open>list_of_keys\<close> and \<open>list_of_names\<close> are \<^verbatim>\<open>list(s)\<close> and
  the iteration of a set \<open>s\<close>: CPython walks the hash table, so the order is the
  runtime's, not the order of insertion.
\<close>

text \<open>The methods of \<^verbatim>\<open>str\<close> that the tracker calls.\<close>

definition upper :: "env \<Rightarrow> string \<Rightarrow> string" where
  "upper e s = (if is_ascii s then ascii_upper s else unicode_upper e s)"

definition lower :: "env \<Rightarrow> string \<Rightarrow> string" where
  "lower e s = (if is_ascii s then ascii_lower s else unicode_lower e s)"

definition strip :: "env \<Rightarrow> string \<Rightarrow> string" where
  "strip e s = (if is_ascii s then ascii_strip s else unicode_strip e s)"

definition split_ws :: "env \<Rightarrow> string \<Rightarrow> string list" where
  "split_ws e s = (if is_ascii s then ascii_split s else unicode_split e s)"

text \<open>
  \<^verbatim>\<open>float(x)\<close>, \<^verbatim>\<open>str(x)\<close> in an f-string, and \<^verbatim>\<open>for act in activities\<close>. Zero
  converts to the float zero; any other number is rounded to a float by the runtime, or
  is an integer too large for one.
\<close>

fun py_float :: "env \<Rightarrow> json \<Rightarrow> error + pyfloat" where
  "py_float e JNull = Inl TypeError"
| "py_float e (JBool b) = Inr (Float (if b then 1 else 0))"
| "py_float e (JNum x) =
     (if x = 0 then Inr (Float 0)
      else case to_float e x of None \<Rightarrow> Inl OverflowError | Some y \<Rightarrow> Inr y)"
| "py_float e (JStr s) = (case float_of_str e s of None \<Rightarrow> Inl ValueError | Some x \<Rightarrow> Inr x)"
| "py_float e (JArr xs) = Inl TypeError"
| "py_float e (JObj kvs) = Inl TypeError"

fun py_str :: "env \<Rightarrow> json \<Rightarrow> string" where
  "py_str e (JStr s) = s"
| "py_str e v = repr e v"

fun py_iter :: "json \<Rightarrow> error + json list" where
  "py_iter (JArr xs) = Inr xs"
| "py_iter (JObj kvs) = Inr (map (\<lambda>kv. JStr (fst kv)) kvs)"
| "py_iter (JStr s) = Inr (map JStr (code_points s))"
| "py_iter _ = Inl TypeError"

section \<open>The wallet registry and the commands\<close>

text \<open>
  \<^verbatim>\<open>self.wallets\<close> is a dict from address to display name. A Python dict iterates in
  insertion order and an assignment to a key it has keeps the key's place, so the
  registry is an association list and \<open>dict_set\<close> is \<^verbatim>\<open>d[k] = v\<close>.
\<close>

fun dict_set :: "('k \<times> 'v) list \<Rightarrow> 'k \<Rightarrow> 'v \<Rightarrow> ('k \<times> 'v) list" where
  "dict_set [] k v = [(k, v)]"
| "dict_set ((k', v') # kvs) k v =
     (if k' = k then (k, v) # kvs else (k', v') # dict_set kvs k v)"

fun dict_update :: "('k \<times> 'v) list \<Rightarrow> ('k \<times> 'v) list \<Rightarrow> ('k \<times> 'v) list" where
  \<comment> \<open>\<^verbatim>\<open>d.update(other)\<close>\<close>
  "dict_update d [] = d"
| "dict_update d ((k, v) # kvs) = dict_update (dict_set d k v) kvs"

record tracker =
  wallets :: "(string \<times> string) list"
  seen_txs :: "json set"

text \<open>
  What a command or a pass does to the outside, in order: a reply to the chat the
  command came from, a rewrite of \<^verbatim>\<open>wallets.json\<close>, a call of \<^verbatim>\<open>bot.send_message\<close> on
  the channel. The \<^verbatim>\<open>print\<close> lines go to the console and are left out; where the
  argument of one can raise, the check that raises is kept.
\<close>

datatype effect =
    Reply string
  | Save "(string \<times> string) list"
  | Send string

definition nl :: string where
  "nl = [char_of (10::nat)]"

text \<open>\<^verbatim>\<open>load_wallets\<close>: the tokens are \<^verbatim>\<open>s.replace(',', ' ').split()\<close>.\<close>

definition load_wallets :: "env \<Rightarrow> string \<Rightarrow> (string \<times> string) list option \<Rightarrow> (string \<times> string) list" where
  \<comment> \<open>the value of TRACKED_WALLETS, and the dict read from \<^verbatim>\<open>wallets.json\<close> (None when the
      file is missing or unreadable)\<close>
  "load_wallets e tracked saved =
     (let raw = split_ws e (map (\<lambda>c. if c = CHR '','' then CHR '' '' else c) tracked);
          ws = fold (\<lambda>w d. let w' = lower e (strip e w)
                            in if startswith w' ''0x'' then dict_set d w' (''Wallet '' @ py_take 8 w') else d)
                 raw []
      in case saved of None \<Rightarrow> ws | Some kvs \<Rightarrow> dict_update ws kvs)"

definition init :: "env \<Rightarrow> string \<Rightarrow> (string \<times> string) list option \<Rightarrow> tracker" where
  \<comment> \<open>\<^verbatim>\<open>PolymarketTracker.__init__\<close>\<close>
  "init e tracked saved = \<lparr>wallets = load_wallets e tracked saved, seen_txs = {}\<rparr>"

definition add_usage :: string where
  "add_usage = ''Usage: /add 0xADRESSE nom_du_wallet'' @ nl @ ''Exemple: /add 0xbb015bb...e5 WhaleAlpha''"

definition add_invalid :: string where
  "add_invalid = cross_mark @ '' Adresse invalide. Elle doit commencer par 0x''"

definition add_done :: "string \<Rightarrow> string \<Rightarrow> nat \<Rightarrow> string" where
  "add_done name address n =
     check_mark @ '' Wallet ajout'' @ e_acute @ ''!'' @ nl @
     name_badge @ '' Nom: '' @ name @ nl @
     purse @ '' Adresse: '' @ py_take 10 address @ ''...'' @ py_suffix 4 address @ nl @
     bar_chart @ '' Total wallets: '' @ str_nat n"

definition cmd_add :: "env \<Rightarrow> string list \<Rightarrow> tracker \<Rightarrow> tracker \<times> effect list" where
  "cmd_add e args t =
     (case args of
        [] \<Rightarrow> (t, [Reply add_usage])
      | a # rest \<Rightarrow>
          let address = lower e (strip e a);
              name = (if length args > 1 then join '' '' rest else ''Wallet '' @ py_take 8 address)
          in if \<not> startswith address ''0x'' \<or> py_len address < 10
             then (t, [Reply add_invalid])
             else let ws = dict_set (wallets t) address name
                  in (t\<lparr>wallets := ws\<rparr>,
                      [Save ws, Reply (add_done name address (length ws))]))"

section \<open>The data API and the channel\<close>

definition get_wallet_activity :: "env \<Rightarrow> string \<Rightarrow> nat \<Rightarrow> json" where
  "get_wallet_activity e wallet limit =
     (case fetch e wallet limit of
        Transport_error \<Rightarrow> JArr []
      | Response status body \<Rightarrow>
          if status = 200 then (case body of None \<Rightarrow> JArr [] | Some j \<Rightarrow> j) else JArr [])"

text \<open>
  \<open>send_telegram\<close> is the list of texts passed to \<^verbatim>\<open>bot.send_message\<close>, in order. A
  call that raises is caught and ends the sending: the chunks after it are not sent.
\<close>

function chunks :: "nat \<Rightarrow> 'a list \<Rightarrow> 'a list list" where
  "chunks n xs = (if n = 0 \<or> xs = [] then [] else take n xs # chunks n (drop n xs))"
  by pat_completeness auto
termination
  by (relation "measure (\<lambda>(n, xs). length xs)") auto

declare chunks.simps [simp del]

fun send_all :: "env \<Rightarrow> string list \<Rightarrow> string list" where
  "send_all e [] = []"
| "send_all e (c # cs) = c # (if deliver e c then send_all e cs else [])"

definition send_telegram :: "env \<Rightarrow> string \<Rightarrow> string list" where
  "send_telegram e message =
     (if py_len message > 4000
      then send_all e (map concat (chunks 4000 (code_points message)))
      else [message])"

section \<open>Notification of new trades\<close>

text \<open>
  A notification is one call of \<open>send_telegram\<close> by \<open>check_new_trades\<close>: the text, and
  with it the transaction hash it is for (the text itself does not carry the hash).
\<close>

type_synonym notification = "json \<times> string"

definition trade_message :: "env \<Rightarrow> string \<Rightarrow> json \<Rightarrow> error + string" where
  "trade_message e name act =
     (let side = dict_get act ''side'' (JStr ''N/A'');
          title = dict_get act ''title'' (JStr ''Unknown'')
      in case py_float e (py_or (dict_get act ''usdcSize'' (JNum 0)) (JNum 0)) of
           Inl err \<Rightarrow> Inl err
         | Inr usdc \<Rightarrow>
        (case py_float e (py_or (dict_get act ''price'' (JNum 0)) (JNum 0)) of
           Inl err \<Rightarrow> Inl err
         | Inr price \<Rightarrow>
             let outcome = dict_get act ''outcome'' (JStr '''');
                 emoji = (if side = JStr ''BUY'' then green_circle else red_circle)
             in Inr (emoji @ '' '' @ py_str e side @ '' - '' @ name @ nl @ nl @
                     bar_chart @ '' '' @ py_str e title @ nl @
                     dart @ '' Outcome: '' @ py_str e outcome @ nl @
                     money_bag @ '' $'' @ format_float e '',.2f'' usdc @ '' @ '' @
                       format_float e ''.2f'' price @ nl @
                     alarm_clock @ '' '' @ strftime e ''%H:%M:%S'')))"

fun sliceable :: "json \<Rightarrow> bool" where
  \<comment> \<open>\<^verbatim>\<open>title[:40]\<close> in the console line raises on anything but a text or a list
      (TypeError; on a dict, KeyError from Python 3.12 on: either way an exception that
      the wallet's \<^verbatim>\<open>try\<close> catches)\<close>
  "sliceable (JStr s) = True"
| "sliceable (JArr xs) = True"
| "sliceable _ = False"

text \<open>
  The body of the loop over a wallet's activities. The result is the set of seen hashes
  and the notifications so far, and the exception that left the body, if one did: what
  the body changed before it raised stays changed.
\<close>

definition check_record ::
  "env \<Rightarrow> string \<Rightarrow> json \<Rightarrow> json set \<times> notification list \<Rightarrow>
   (json set \<times> notification list) \<times> error option" where
  "check_record e name act st =
     (let seen = fst st; notes = snd st
      in if \<not> is_dict act then (st, None)
         else if dict_get act ''type'' JNull \<noteq> JStr ''TRADE'' then (st, None)
         else let tx_hash = dict_get act ''transactionHash'' (JStr '''')
              in if \<not> truthy tx_hash then (st, None)
                 else if \<not> hashable tx_hash then (st, Some TypeError)
                 else if py_key tx_hash \<in> seen then (st, None)
                 else let seen' = insert (py_key tx_hash) seen
                      in case trade_message e name act of
                           Inl err \<Rightarrow> ((seen', notes), Some err)
                         | Inr msg \<Rightarrow>
                             ((seen', notes @ [(py_key tx_hash, msg)]),
                              if sliceable (dict_get act ''title'' (JStr ''Unknown''))
                              then None else Some TypeError))"

fun check_activities ::
  "env \<Rightarrow> string \<Rightarrow> json list \<Rightarrow> json set \<times> notification list \<Rightarrow>
   (json set \<times> notification list) \<times> error option" where
  "check_activities e name [] st = (st, None)"
| "check_activities e name (act # acts) st =
     (case check_record e name act st of
        (st', Some err) \<Rightarrow> (st', Some err)
      | (st', None) \<Rightarrow> check_activities e name acts st')"

definition check_wallet ::
  "env \<Rightarrow> string \<times> string \<Rightarrow> json set \<times> notification list \<Rightarrow> json set \<times> notification list" where
  \<comment> \<open>one turn of the loop over the wallets: the \<^verbatim>\<open>try\<close> catches what the wallet raised\<close>
  "check_wallet e w st =
     (case py_iter (get_wallet_activity e (fst w) 5) of
        Inl err \<Rightarrow> st
      | Inr acts \<Rightarrow> fst (check_activities e (snd w) acts st))"

definition compact :: "env \<Rightarrow> json set \<Rightarrow> json set" where
  "compact e seen =
     (if card seen > 2000 then set (py_last 1000 (list_of_keys e seen)) else seen)"

definition check_new_trades :: "env \<Rightarrow> tracker \<Rightarrow> tracker \<times> notification list" where
  "check_new_trades e t =
     (let st = fold (check_wallet e) (wallets t) (seen_txs t, [])
      in (t\<lparr>seen_txs := compact e (fst st)\<rparr>, snd st))"

definition sent :: "env \<Rightarrow> notification list \<Rightarrow> effect list" where
  \<comment> \<open>what the channel is sent for the notifications of a pass\<close>
  "sent e notes = map Send (concat (map (\<lambda>n. send_telegram e (snd n)) notes))"

text \<open>
  Successive passes, each with the environment it runs in: the tracker after the last
  one and the notifications of all of them.
\<close>

fun check_passes :: "env list \<Rightarrow> tracker \<Rightarrow> tracker \<times> notification list" where
  "check_passes [] t = (t, [])"
| "check_passes (e # es) t =
     (let r = check_new_trades e t; r' = check_passes es (fst r)
      in (fst r', snd r @ snd r'))"

section \<open>The summary by market\<close>

record market =
  market_wallets :: "string set"
  wallet_names :: "string list"
  buy_count :: nat
  sell_count :: nat
  total_usdc :: pyfloat
  prices :: "pyfloat list"
  outcomes :: "json list"
  trader_names :: "string set"

definition new_market :: market where
  \<comment> \<open>the factory of the \<^verbatim>\<open>defaultdict\<close>\<close>
  "new_market = \<lparr>market_wallets = {}, wallet_names = [], buy_count = 0, sell_count = 0,
                  total_usdc = Float 0, prices = [], outcomes = [], trader_names = {}\<rparr>"

text \<open>
  \<^verbatim>\<open>market_buys\<close> is a dict in insertion order, keyed by title: an association list.
  \<open>market_of\<close> reads \<^verbatim>\<open>market_buys[title]\<close> (a fresh market for a title not there
  yet) and \<open>dict_set\<close> writes the changed market back, at the end for a new title.
\<close>

definition market_of :: "(json \<times> market) list \<Rightarrow> json \<Rightarrow> market" where
  "market_of mb k = (case map_of mb k of None \<Rightarrow> new_market | Some m \<Rightarrow> m)"

definition summary_record ::
  "env \<Rightarrow> string \<Rightarrow> string \<Rightarrow> json \<Rightarrow> (json \<times> market) list \<times> nat \<Rightarrow>
   error + (json \<times> market) list \<times> nat" where
  "summary_record e address name act st =
     (let market_buys = fst st; total_trades = snd st
      in if \<not> is_dict act \<or> dict_get act ''type'' JNull \<noteq> JStr ''TRADE'' then Inr st
         else let title = dict_get act ''title'' (JStr '''')
              in if \<not> truthy title then Inr st
                 else let total_trades' = total_trades + 1;
                          side = dict_get act ''side'' (JStr '''')
                      in case py_float e (py_or (dict_get act ''usdcSize'' (JNum 0)) (JNum 0)) of
                           Inl err \<Rightarrow> Inl err
                         | Inr usdc \<Rightarrow>
                        (case py_float e (py_or (dict_get act ''price'' (JNum 0)) (JNum 0)) of
                           Inl err \<Rightarrow> Inl err
                         | Inr price \<Rightarrow>
                             let outcome = dict_get act ''outcome'' (JStr '''')
                             in if \<not> hashable title then Inl TypeError
                                else let m = market_of market_buys (py_key title);
                                         m1 = m\<lparr>market_wallets := insert address (market_wallets m),
                                                wallet_names := wallet_names m @ [name],
                                                total_usdc := fadd e (total_usdc m) usdc,
                                                trader_names := insert name (trader_names m)\<rparr>;
                                         m2 = (if positive price then m1\<lparr>prices := prices m1 @ [price]\<rparr> else m1);
                                         m3 = (if truthy outcome then m2\<lparr>outcomes := outcomes m2 @ [outcome]\<rparr>
                                               else m2)
                                     in (case side of
                                          JStr s \<Rightarrow>
                                            let m4 = (if upper e s = ''BUY'' then m3\<lparr>buy_count := buy_count m3 + 1\<rparr>
                                                      else if upper e s = ''SELL''
                                                      then m3\<lparr>sell_count := sell_count m3 + 1\<rparr>
                                                      else m3)
                                            in Inr (dict_set market_buys (py_key title) m4, total_trades')
                                        | _ \<Rightarrow> Inl AttributeError)))"

fun summary_activities ::
  "env \<Rightarrow> string \<Rightarrow> string \<Rightarrow> json list \<Rightarrow> (json \<times> market) list \<times> nat \<Rightarrow>
   error + (json \<times> market) list \<times> nat" where
  "summary_activities e address name [] st = Inr st"
| "summary_activities e address name (act # acts) st =
     (case summary_record e address name act st of
        Inl err \<Rightarrow> Inl err
      | Inr st' \<Rightarrow> summary_activities e address name acts st')"

definition summary_wallet ::
  "env \<Rightarrow> string \<times> string \<Rightarrow> (json \<times> market) list \<times> nat \<Rightarrow> error + (json \<times> market) list \<times> nat" where
  "summary_wallet e w st =
     (case py_iter (get_wallet_activity e (fst w) 50) of
        Inl err \<Rightarrow> Inl err
      | Inr acts \<Rightarrow> summary_activities e (fst w) (snd w) acts st)"

fun aggregate ::
  "env \<Rightarrow> (string \<times> string) list \<Rightarrow> (json \<times> market) list \<times> nat \<Rightarrow>
   error + (json \<times> market) list \<times> nat" where
  \<comment> \<open>the loop over the wallets: nothing catches what a wallet raises\<close>
  "aggregate e [] st = Inr st"
| "aggregate e (w # ws) st =
     (case summary_wallet e w st of Inl err \<Rightarrow> Inl err | Inr st' \<Rightarrow> aggregate e ws st')"

text \<open>
  \<^verbatim>\<open>sorted(items, key=..., reverse=True)\<close>: Python's sort is stable, and with
  \<^verbatim>\<open>reverse=True\<close> it still leaves items of equal key in their original order. That is
  the stable ascending sort on the negated key.
\<close>

definition sorted_markets :: "(json \<times> market) list \<Rightarrow> (json \<times> market) list" where
  "sorted_markets market_buys = sort_key (\<lambda>x. - int (buy_count (snd x))) market_buys"

definition ranked :: "(json \<times> market) list \<Rightarrow> (json \<times> market) list" where
  \<comment> \<open>\<^verbatim>\<open>sorted_markets[:15]\<close>, the markets the report lists\<close>
  "ranked market_buys = take 15 (sorted_markets market_buys)"

text \<open>
  \<^verbatim>\<open>Counter(outcomes).most_common(1)[0][0]\<close>: the outcome counted most often, the one
  met first among those counted equally often.
\<close>

definition count_key :: "json \<Rightarrow> json list \<Rightarrow> nat" where
  "count_key x ys = length (filter (\<lambda>y. py_key y = py_key x) ys)"

definition most_common :: "json list \<Rightarrow> json option" where
  "most_common ys =
     (case ys of
        [] \<Rightarrow> None
      | y # _ \<Rightarrow> Some (fold (\<lambda>x best. if count_key x ys > count_key best ys then x else best) ys y))"

definition fire :: "nat \<Rightarrow> string" where
  "fire n =
     (if n \<ge> 5 then fire_sign @ fire_sign @ fire_sign @ '' ''
      else if n \<ge> 3 then fire_sign @ fire_sign @ '' ''
      else if n \<ge> 2 then fire_sign @ '' ''
      else '''')"

definition who_line :: "env \<Rightarrow> market \<Rightarrow> string" where
  "who_line e data = ''   '' @ purse @ '' '' @ join '', '' (list_of_names e (trader_names data))"

definition render_market :: "env \<Rightarrow> nat \<Rightarrow> json \<times> market \<Rightarrow> error + string list" where
  "render_market e i x =
     (let data = snd x;
          avg_price = (if prices data \<noteq> [] then fdiv e (fsum e (prices data)) (length (prices data))
                       else Float 0);
          wallet_count = card (market_wallets data)
      in if \<not> list_all hashable (outcomes data) then Inl TypeError
         else let top_outcome = (case most_common (outcomes data) of
                                   None \<Rightarrow> ''''
                                 | Some best \<Rightarrow> '' '' @ right_arrow @ '' '' @ py_str e best)
              in case fst x of
                   JStr market \<Rightarrow>
                     Inr [str_nat i @ ''. '' @ py_take 55 market,
                          ''   '' @ fire (buy_count data) @ ''BUY: '' @ str_nat (buy_count data) @
                            '' | SELL: '' @ str_nat (sell_count data) @
                            '' | Wallets: '' @ str_nat wallet_count,
                          ''   Vol: $'' @ format_float e '',.0f'' (total_usdc data) @
                            '' | Prix moy: '' @ format_float e ''.2f'' avg_price @ top_outcome,
                          who_line e data,
                          '''']
                 | _ \<Rightarrow> Inl TypeError)"

fun render_markets :: "env \<Rightarrow> nat \<Rightarrow> (json \<times> market) list \<Rightarrow> error + string list" where
  "render_markets e i [] = Inr []"
| "render_markets e i (x # xs) =
     (case render_market e i x of
        Inl err \<Rightarrow> Inl err
      | Inr ls \<Rightarrow>
          (case render_markets e (Suc i) xs of Inl err \<Rightarrow> Inl err | Inr rest \<Rightarrow> Inr (ls @ rest)))"

definition header :: "env \<Rightarrow> nat \<Rightarrow> nat \<Rightarrow> string list" where
  "header e n_wallets total_trades =
     [bar_chart @ '' R'' @ E_acute @ ''SUM'' @ E_acute @ '' ACHATS WALLETS'',
      alarm_clock @ '' '' @ strftime e ''%d/%m/%Y %H:%M'',
      purse @ '' '' @ str_nat n_wallets @ '' wallets | '' @ str_nat total_trades @ '' trades'',
      replicate 30 CHR ''='' @ nl]"

definition generate_wallet_summary :: "env \<Rightarrow> tracker \<Rightarrow> error + string" where
  "generate_wallet_summary e t =
     (case aggregate e (wallets t) ([], 0) of
        Inl err \<Rightarrow> Inl err
      | Inr (market_buys, total_trades) \<Rightarrow>
          if market_buys = [] then Inr ''''
          else (case render_markets e 1 (ranked market_buys) of
                  Inl err \<Rightarrow> Inl err
                | Inr ls \<Rightarrow> Inr (join nl (header e (length (wallets t)) total_trades @ ls))))"

section \<open>The periodic jobs\<close>

definition periodic_check :: "env \<Rightarrow> tracker \<Rightarrow> tracker \<times> effect list" where
  "periodic_check e t = (let r = check_new_trades e t in (fst r, sent e (snd r)))"

definition periodic_summary :: "env \<Rightarrow> tracker \<Rightarrow> effect list" where
  "periodic_summary e t =
     (case generate_wallet_summary e t of
        Inl err \<Rightarrow> []
      | Inr summary \<Rightarrow> if summary \<noteq> [] then map Send (send_telegram e summary) else [])"

text \<open>
  The summary command replies to the chat it came from and sends the report, when
  there is one, to the channel. Nothing in it catches what the generator raises.
\<close>

definition hourglass :: string where
  "hourglass = [char_of (0xE2::nat), char_of (0x8F::nat), char_of (0xB3::nat)]"

definition warning_sign :: string where
  "warning_sign = [char_of (0xE2::nat), char_of (0x9A::nat), char_of (0xA0::nat),
                   char_of (0xEF::nat), char_of (0xB8::nat), char_of (0x8F::nat)]"

definition is_send :: "effect \<Rightarrow> bool" where
  "is_send x = (case x of Send m \<Rightarrow> True | _ \<Rightarrow> False)"

definition cmd_summary :: "env \<Rightarrow> tracker \<Rightarrow> effect list \<times> error option" where
  "cmd_summary e t =
     (case generate_wallet_summary e t of
        Inl err \<Rightarrow> ([Reply (hourglass @ '' Analyse en cours...'')], Some err)
      | Inr summary \<Rightarrow>
          (Reply (hourglass @ '' Analyse en cours...'') #
           (if summary \<noteq> [] then map Send (send_telegram e summary)
            else [Reply (warning_sign @ '' Aucune donn'' @ e_acute @ ''e trouv'' @ e_acute @ ''e'')]),
           None))"

text \<open>
  \<open>run\<close> registers the command handlers and the repeating jobs. A job registered by
  \<^verbatim>\<open>job_queue.run_repeating(callback, interval, first)\<close> runs \<open>first\<close> seconds after the
  start and every \<open>interval\<close> seconds from then on.
\<close>

datatype callback = Periodic_check | Periodic_summary

record job =
  callback :: callback
  interval :: nat
  first :: nat

record app =
  handlers :: "string list"
  job_queue :: "job list"

definition CHECK_INTERVAL :: nat where
  "CHECK_INTERVAL = 30"

definition SUMMARY_INTERVAL_HOURS :: nat where
  "SUMMARY_INTERVAL_HOURS = 1"

definition rocket :: string where
  "rocket = [char_of (0xF0::nat), char_of (0x9F::nat), char_of (0x9A::nat), char_of (0x80::nat)]"

definition start_message :: "nat \<Rightarrow> string" where
  "start_message n =
     rocket @ '' Bot Polymarket d'' @ e_acute @ ''marr'' @ e_acute @ ''!'' @ nl @
     purse @ '' '' @ str_nat n @ '' wallets surveill'' @ e_acute @ ''s'' @ nl @
     bar_chart @ '' R'' @ e_acute @ ''sum'' @ e_acute @ '' auto toutes les '' @
       str_nat SUMMARY_INTERVAL_HOURS @ ''h'' @ nl @ nl @
     ''Commandes: /add /remove /list /summary /help''"

definition run :: "env \<Rightarrow> tracker \<Rightarrow> app \<times> effect list" where
  "run e t =
     (\<lparr>handlers = [''start'', ''help'', ''add'', ''remove'', ''list'', ''summary''],
       job_queue = [\<lparr>callback = Periodic_summary, interval = SUMMARY_INTERVAL_HOURS * 3600, first = 60\<rparr>]\<rparr>,
      map Send (send_telegram e (start_message (length (wallets t)))))"

definition fires :: "job \<Rightarrow> nat \<Rightarrow> bool" where
  "fires j s = (first j \<le> s \<and> (s - first j) mod interval j = 0)"

definition due :: "app \<Rightarrow> nat \<Rightarrow> callback list" where
  \<comment> \<open>the callbacks the job queue runs \<open>s\<close> seconds after the start\<close>
  "due a s = map callback (filter (\<lambda>j. fires j s) (job_queue a))"

section \<open>Notions the properties are stated with\<close>

definition is_upper :: "char \<Rightarrow> bool" where
  \<comment> \<open>an uppercase ASCII letter\<close>
  "is_upper c = (65 \<le> (of_char c :: nat) \<and> (of_char c :: nat) \<le> 90)"

text \<open>
  A record the summary counts: a dict of type TRADE with a title that is true
  (non-empty). \<open>title_key\<close> is the key its market has in \<^verbatim>\<open>market_buys\<close>.
\<close>

definition qualifying :: "json \<Rightarrow> bool" where
  "qualifying act = (is_dict act \<and> dict_get act ''type'' JNull = JStr ''TRADE'' \<and>
                     truthy (dict_get act ''title'' (JStr '''')))"

definition title_key :: "json \<Rightarrow> json" where
  "title_key act = py_key (dict_get act ''title'' (JStr ''''))"

text \<open>
  The records of a wallet that the summary pass counts, those of all wallets with the
  display name of their wallet, and the names met for one market, in the order met.
\<close>

definition wallet_records :: "env \<Rightarrow> string \<times> string \<Rightarrow> json list" where
  "wallet_records e w =
     (case py_iter (get_wallet_activity e (fst w) 50) of
        Inl err \<Rightarrow> []
      | Inr acts \<Rightarrow> filter qualifying acts)"

definition named_records :: "env \<Rightarrow> (string \<times> string) list \<Rightarrow> (string \<times> json) list" where
  "named_records e ws = concat (map (\<lambda>w. map (\<lambda>act. (snd w, act)) (wallet_records e w)) ws)"

definition names_for :: "json \<Rightarrow> (string \<times> json) list \<Rightarrow> string list" where
  "names_for k nrs = map fst (filter (\<lambda>x. title_key (snd x) = k) nrs)"

text \<open>
  The order of first occurrence: each element once, where it is met first.
\<close>

definition encounter_order :: "'a list \<Rightarrow> 'a list" where
  "encounter_order xs = rev (remdups (rev xs))"

text \<open>
  Two texts that are equal up to the case of ASCII letters: of the same length, and at
  each place the same character or the two cases of one letter.
\<close>

definition same_letter :: "char \<Rightarrow> char \<Rightarrow> bool" where
  "same_letter c d =
     (let n = (of_char c :: nat); m = (of_char d :: nat)
      in n = m \<or> (65 \<le> n \<and> n \<le> 90 \<and> m = n + 32) \<or> (65 \<le> m \<and> m \<le> 90 \<and> n = m + 32))"

definition ci_equal :: "string \<Rightarrow> string \<Rightarrow> bool" where
  "ci_equal s t = list_all2 same_letter s t"

text \<open>
  The lines \<open>render_market\<close> gives for the \<open>i\<close>-th listed market.
\<close>

definition entry_lines :: "env \<Rightarrow> nat \<Rightarrow> json \<times> market \<Rightarrow> string list" where
  "entry_lines e i x = (case render_market e i x of Inl err \<Rightarrow> [] | Inr ls \<Rightarrow> ls)"

text \<open>
  A market the report can print: its title is a text (the report slices it) and its
  outcomes are hashable (the report counts them with a \<^verbatim>\<open>Counter\<close>).
\<close>

definition printable :: "json \<times> market \<Rightarrow> bool" where
  "printable x = ((case fst x of JStr s \<Rightarrow> True | _ \<Rightarrow> False) \<and> list_all hashable (outcomes (snd x)))"

subsection \<open>Examples\<close>

text \<open>
  An environment for the examples: the API does not answer, the channel accepts every
  message, a number is printed as its format and the clock as the pattern asked for, a
  set of names iterates in alphabetical order. Float arithmetic is exact in it; the
  numbers of the examples are integers and halves, quarters and eighths, on which the
  floats do not round either. No example passes a numeral as text to \<^verbatim>\<open>float()\<close>,
  prints a value that is not a text, iterates a set of hashes in this environment, or
  has a text with a character outside ASCII case-mapped, stripped or split.
\<close>

fun exact_add :: "pyfloat \<Rightarrow> pyfloat \<Rightarrow> pyfloat" where
  "exact_add (Float x) (Float y) = Float (x + y)"
| "exact_add (Float x) b = b"
| "exact_add a (Float y) = a"
| "exact_add a b = (if a = b then a else NaN)"

fun exact_div :: "pyfloat \<Rightarrow> nat \<Rightarrow> pyfloat" where
  "exact_div (Float x) n = Float (x / of_nat n)"
| "exact_div a n = a"

definition env0 :: env where
  "env0 = \<lparr>fetch = (\<lambda>wallet limit. Transport_error),
            deliver = (\<lambda>message. True),
            to_float = (\<lambda>x. Some (Float x)),
            float_of_str = (\<lambda>s. None),
            fadd = exact_add,
            fsum = (\<lambda>xs. foldl exact_add (Float 0) xs),
            fdiv = exact_div,
            format_float = (\<lambda>spec x. spec),
            repr = (\<lambda>v. ''?''),
            strftime = (\<lambda>format. format),
            unicode_upper = ascii_upper,
            unicode_lower = ascii_lower,
            unicode_strip = ascii_strip,
            unicode_split = ascii_split,
            list_of_keys = (\<lambda>s. []),
            list_of_names = sorted_list_of_set\<rparr>"

definition trade :: "string \<Rightarrow> string \<Rightarrow> string \<Rightarrow> rat \<Rightarrow> rat \<Rightarrow> string \<Rightarrow> json" where
  "trade tx side title usdc price outcome =
     JObj [(''type'', JStr ''TRADE''), (''transactionHash'', JStr tx), (''side'', JStr side),
           (''title'', JStr title), (''usdcSize'', JNum usdc), (''price'', JNum price),
           (''outcome'', JStr outcome)]"

definition two_wallets :: "(string \<times> string) list" where
  "two_wallets = [(''0xaaaaaaaaaa'', ''Alpha''), (''0xbbbbbbbbbb'', ''Beta'')]"

text \<open>
  The worked example of the specification: Alpha has three BUY trades and one SELL
  trade on one market, Beta two BUY trades on the same market.
\<close>

definition example_env :: env where
  "example_env = env0\<lparr>fetch := (\<lambda>wallet limit.
     if wallet = ''0xaaaaaaaaaa''
     then Response 200 (Some (JArr
            [trade ''0x01'' ''BUY'' ''Will X happen?'' 100 (1/2) ''Yes'',
             trade ''0x02'' ''BUY'' ''Will X happen?'' 200 (3/4) ''Yes'',
             trade ''0x03'' ''BUY'' ''Will X happen?'' 50 (5/8) ''Yes'',
             trade ''0x04'' ''SELL'' ''Will X happen?'' 30 (1/4) ''Yes'']))
     else if wallet = ''0xbbbbbbbbbb''
     then Response 200 (Some (JArr
            [trade ''0x05'' ''BUY'' ''Will X happen?'' 40 (1/2) ''Yes'',
             trade ''0x06'' ''BUY'' ''Will X happen?'' 60 (1/2) ''Yes'']))
     else Transport_error)\<rparr>"

definition example_market :: market where
  "example_market =
     \<lparr>market_wallets = {''0xaaaaaaaaaa'', ''0xbbbbbbbbbb''},
      wallet_names = [''Alpha'', ''Alpha'', ''Alpha'', ''Alpha'', ''Beta'', ''Beta''],
      buy_count = 5, sell_count = 1, total_usdc = Float 480,
      prices = [Float (1/2), Float (3/4), Float (5/8), Float (1/4), Float (1/2), Float (1/2)],
      outcomes = [JStr ''Yes'', JStr ''Yes'', JStr ''Yes'', JStr ''Yes'', JStr ''Yes'', JStr ''Yes''],
      trader_names = {''Alpha'', ''Beta''}\<rparr>"

text \<open>
  Three markets, met in the order M1, M2, M3, with 1, 2 and 1 BUY trades.
\<close>

definition ranking_env :: env where
  "ranking_env = env0\<lparr>fetch := (\<lambda>wallet limit.
     if wallet = ''0xaaaaaaaaaa''
     then Response 200 (Some (JArr
            [trade ''0x11'' ''BUY'' ''M1'' 10 (1/2) ''Yes'',
             trade ''0x12'' ''BUY'' ''M2'' 10 (1/2) ''Yes'',
             trade ''0x13'' ''BUY'' ''M3'' 10 (1/2) ''No'',
             trade ''0x14'' ''BUY'' ''M2'' 10 (1/2) ''Yes'']))
     else if wallet = ''0xbbbbbbbbbb''
     then Response 200 (Some (JArr [trade ''0x15'' ''SELL'' ''M3'' 10 (1/2) ''No'']))
     else Transport_error)\<rparr>"

text \<open>
  Alpha's first record has the text "abc" for its size; Alpha's second record and
  Beta's record are well-formed.
\<close>

definition malformed_env :: env where
  "malformed_env = env0\<lparr>fetch := (\<lambda>wallet limit.
     if wallet = ''0xaaaaaaaaaa''
     then Response 200 (Some (JArr
            [JObj [(''type'', JStr ''TRADE''), (''transactionHash'', JStr ''0x21''),
                   (''side'', JStr ''BUY''), (''title'', JStr ''M1''), (''usdcSize'', JStr ''abc'')],
             trade ''0x22'' ''BUY'' ''M1'' 10 (1/2) ''Yes'']))
     else if wallet = ''0xbbbbbbbbbb''
     then Response 200 (Some (JArr [trade ''0x23'' ''BUY'' ''M1'' 10 (1/2) ''Yes'']))
     else Transport_error)\<rparr>"

text \<open>
  Every activity request is answered with status 200 and the JSON body \<open>null\<close>.
\<close>

definition null_env :: env where
  "null_env = env0\<lparr>fetch := (\<lambda>wallet limit. Response 200 (Some JNull))\<rparr>"

subsection \<open>Passes of the notification path\<close>

text \<open>
  \<open>pass_seen\<close> is the set of seen hashes at the end of the loop over the wallets,
  before the compaction. \<open>no_eviction\<close> holds of successive passes when none of them
  ends with more than 2000 hashes, so that none compacts the set.
\<close>

definition pass_seen :: "env \<Rightarrow> tracker \<Rightarrow> json set" where
  "pass_seen e t = fst (fold (check_wallet e) (wallets t) (seen_txs t, []))"

fun no_eviction :: "env list \<Rightarrow> tracker \<Rightarrow> bool" where
  "no_eviction [] t = True"
| "no_eviction (e # es) t = (card (pass_seen e t) \<le> 2000 \<and> no_eviction es (fst (check_new_trades e t)))"

text \<open>
  From one point of a pass to a later one: the set of seen hashes has only grown, and
  the notifications added are for distinct hashes that were added to the set between
  the two points.
\<close>

definition grows :: "json set \<times> notification list \<Rightarrow> json set \<times> notification list \<Rightarrow> bool" where
  "grows st st' =
     (fst st \<subseteq> fst st' \<and>
      (\<exists>new. snd st' = snd st @ new \<and> distinct (map fst new) \<and> set (map fst new) \<subseteq> fst st' - fst st))"

subsection \<open>A wallet that trades between the polls\<close>

text \<open>
  The scenario of the examples with a compaction. Trade \<open>i\<close> has the hash "0x" and
  the decimal digits of \<open>i\<close>. One wallet is watched; it makes trade \<open>j\<close> before
  poll \<open>j\<close>, and the API answers poll \<open>j\<close> with the latest five trades, newest
  first (\<open>window j\<close>). \<open>feed order acts\<close> is the environment of a poll that is
  answered with \<open>acts\<close>, in a runtime where the set of hashes iterates in the given
  order: oldest hash first, or newest hash first.
\<close>

definition nat_of_str :: "string \<Rightarrow> nat" where
  "nat_of_str s = foldl (\<lambda>a c. 10 * a + (of_char c - 48)) 0 s"

definition tx :: "nat \<Rightarrow> string" where
  "tx i = ''0x'' @ str_nat i"

definition tx_key :: "nat \<Rightarrow> json" where
  "tx_key i = JStr (tx i)"

definition trade_no :: "nat \<Rightarrow> json" where
  "trade_no i = trade (tx i) ''BUY'' ''Will X happen?'' 100 (1/2) ''Yes''"

definition window :: "nat \<Rightarrow> json list" where
  "window j = map trade_no (rev [j - 4..<Suc j])"

definition oldest_first :: "json set \<Rightarrow> json list" where
  "oldest_first s = filter (\<lambda>k. k \<in> s) (map tx_key [0..<2001])"

definition newest_first :: "json set \<Rightarrow> json list" where
  "newest_first s = rev (oldest_first s)"

definition feed :: "(json set \<Rightarrow> json list) \<Rightarrow> json list \<Rightarrow> env" where
  "feed order acts = env0\<lparr>fetch := (\<lambda>wallet limit. Response 200 (Some (JArr acts))),
                           list_of_keys := order\<rparr>"

definition one_wallet :: tracker where
  "one_wallet = \<lparr>wallets = [(''0xaaaaaaaaaa'', ''Alpha'')], seen_txs = {}\<rparr>"

text \<open>
  The notification for trade \<open>i\<close> of the scenario.
\<close>

definition alert :: "env \<Rightarrow> string \<Rightarrow> nat \<Rightarrow> notification" where
  "alert e name i = (tx_key i, case trade_message e name (trade_no i) of Inl err \<Rightarrow> [] | Inr msg \<Rightarrow> msg)"

section \<open>Properties\<close>

subsection \<open>Dicts and texts\<close>

lemma map_of_dict_set: "map_of (dict_set d k v) = (map_of d)(k \<mapsto> v)"
  by (induction d k v rule: dict_set.induct) auto

lemma keys_dict_set:
  "map fst (dict_set d k v) = (if k \<in> fst ` set d then map fst d else map fst d @ [k])"
  by (induction d k v rule: dict_set.induct) (auto simp: image_iff)

lemma length_dict_set:
  "length (dict_set d k v) = (if k \<in> fst ` set d then length d else Suc (length d))"
  by (induction d k v rule: dict_set.induct) (auto simp: image_iff)

lemma lower_char_not_upper: "\<not> is_upper (lower_char c)"
  by (auto simp: lower_char_def is_upper_def Let_def)

lemma ascii_lower_not_upper: "list_all (\<lambda>c. \<not> is_upper c) (ascii_lower s)"
  by (simp add: ascii_lower_def list_all_iff lower_char_not_upper)

lemma is_ascii_strip: "is_ascii s \<Longrightarrow> is_ascii (ascii_strip s)"
proof -
  assume a: "is_ascii s"
  have "set (ascii_strip s) \<subseteq> set s"
  proof
    fix x
    assume "x \<in> set (ascii_strip s)"
    then have "x \<in> set (dropWhile is_space (rev (dropWhile is_space s)))"
      by (simp add: ascii_strip_def)
    then have "x \<in> set (rev (dropWhile is_space s))" by (rule set_dropWhileD)
    then have "x \<in> set (dropWhile is_space s)" by simp
    then show "x \<in> set s" by (rule set_dropWhileD)
  qed
  with a show ?thesis unfolding is_ascii_def list_all_iff by blast
qed

lemma lower_strip_ascii: "is_ascii a \<Longrightarrow> lower e (strip e a) = ascii_lower (ascii_strip a)"
  by (simp add: lower_def strip_def is_ascii_strip)

subsection \<open>The add command\<close>

text \<open>
  C6, as the code has it. The add command accepts an address iff its normalised form
  (\<^verbatim>\<open>args[0].strip().lower()\<close>) begins with "0x" and has at least 10 characters. An
  accepted address is stored in the normalised form under the name given (or "Wallet"
  and its first 8 characters), the registry is saved and the reply is the confirmation.
  A rejected address gets the error reply, and the tracker is unchanged and nothing is
  saved. The normalised form of an address that is all ASCII is the address without the
  whitespace around it, each uppercase letter replaced by its lowercase one, and has no
  uppercase letter.
\<close>

theorem cmd_add_validation:
  "(let address = lower e (strip e a);
        name = (if rest \<noteq> [] then join '' '' rest else ''Wallet '' @ py_take 8 address);
        r = cmd_add e (a # rest) t
    in (is_ascii a \<longrightarrow>
          address = ascii_lower (ascii_strip a) \<and> list_all (\<lambda>c. \<not> is_upper c) address) \<and>
       (if startswith address ''0x'' \<and> 10 \<le> py_len address
        then wallets (fst r) = dict_set (wallets t) address name \<and>
             map_of (wallets (fst r)) address = Some name \<and>
             seen_txs (fst r) = seen_txs t \<and>
             snd r = [Save (wallets (fst r)), Reply (add_done name address (length (wallets (fst r))))]
        else r = (t, [Reply add_invalid])))"
  by (auto simp: cmd_add_def Let_def lower_strip_ascii ascii_lower_not_upper map_of_dict_set)

theorem cmd_add_validation_witness:
  "wallets (fst (cmd_add env0 [''0XAbCdEf123456'', ''Big'', ''Whale''] \<lparr>wallets = [], seen_txs = {}\<rparr>)) =
     [(''0xabcdef123456'', ''Big Whale'')] \<and>
   cmd_add env0 [''abcdef1234567890''] \<lparr>wallets = [], seen_txs = {}\<rparr> =
     (\<lparr>wallets = [], seen_txs = {}\<rparr>, [Reply add_invalid])"
proof -
  let ?t = "\<lparr>wallets = [], seen_txs = {}\<rparr>"
  have n1: "lower env0 (strip env0 ''0XAbCdEf123456'') = ''0xabcdef123456''" by code_simp
  have v1: "startswith ''0xabcdef123456'' ''0x'' \<and> 10 \<le> py_len ''0xabcdef123456''" by code_simp
  have n2: "lower env0 (strip env0 ''abcdef1234567890'') = ''abcdef1234567890''" by code_simp
  have v2: "\<not> startswith ''abcdef1234567890'' ''0x''" by code_simp
  have j: "join '' '' [''Big'', ''Whale''] = ''Big Whale''" by simp
  from cmd_add_validation [of env0 "''0XAbCdEf123456''" "[''Big'', ''Whale'']" ?t] n1 v1 j
  have "wallets (fst (cmd_add env0 [''0XAbCdEf123456'', ''Big'', ''Whale''] ?t)) =
          [(''0xabcdef123456'', ''Big Whale'')]"
    by (simp add: Let_def)
  moreover from cmd_add_validation [of env0 "''abcdef1234567890''" "[]" ?t] n2 v2
  have "cmd_add env0 [''abcdef1234567890''] ?t = (?t, [Reply add_invalid])"
    by (simp add: Let_def)
  ultimately show ?thesis by simp
qed

text \<open>
  C6 as stated fails: "0XAb12" is non-empty and begins with "0x" once normalised, and
  the add command rejects it, since it is shorter than 10 characters; "0xab12" is not
  stored. The address is all ASCII, so that nothing here depends on the environment.
\<close>

theorem cmd_add_short_address_rejected:
  "\<forall>e. lower e (strip e ''0XAb12'') = ''0xab12'' \<and> ''0xab12'' \<noteq> [] \<and>
        startswith ''0xab12'' ''0x'' \<and>
        cmd_add e [''0XAb12''] \<lparr>wallets = [], seen_txs = {}\<rparr> =
          (\<lparr>wallets = [], seen_txs = {}\<rparr>, [Reply add_invalid])"
proof -
  have a: "is_ascii ''0XAb12''" by code_simp
  have n: "ascii_lower (ascii_strip ''0XAb12'') = ''0xab12''" by code_simp
  have s: "startswith ''0xab12'' ''0x''" and l: "py_len ''0xab12'' < 10" by code_simp+
  show ?thesis
    by (simp add: cmd_add_def Let_def lower_strip_ascii [OF a] n s l)
qed

text \<open>
  C10, as the code has it. When the normalised address is in the registry and passes
  the validation of the add command, the command replaces its display name by the new
  one, leaves the name of every other address, the order and the number of the entries
  unchanged, saves the registry and replies with the confirmation.
\<close>

theorem cmd_add_existing:
  assumes "address = lower e (strip e a)"
    and "address \<in> fst ` set (wallets t)"
    and "startswith address ''0x''" and "10 \<le> py_len address"
    and "name = (if rest \<noteq> [] then join '' '' rest else ''Wallet '' @ py_take 8 address)"
    and "r = cmd_add e (a # rest) t"
  shows "map_of (wallets (fst r)) address = Some name \<and>
         (\<forall>k. k \<noteq> address \<longrightarrow> map_of (wallets (fst r)) k = map_of (wallets t) k) \<and>
         map fst (wallets (fst r)) = map fst (wallets t) \<and>
         length (wallets (fst r)) = length (wallets t) \<and>
         seen_txs (fst r) = seen_txs t \<and>
         snd r = [Save (wallets (fst r)), Reply (add_done name address (length (wallets t)))]"
  using assms by (auto simp: cmd_add_def Let_def map_of_dict_set keys_dict_set length_dict_set)

theorem cmd_add_existing_witness:
  "(let t = \<lparr>wallets = [(''0xaaaaaaaaaa'', ''Alpha''), (''0xbbbbbbbbbb'', ''Beta'')], seen_txs = {}\<rparr>;
        r = cmd_add env0 [''0XAAAAAAAAAA'', ''Whale'', ''One''] t
    in wallets (fst r) = [(''0xaaaaaaaaaa'', ''Whale One''), (''0xbbbbbbbbbb'', ''Beta'')] \<and>
       snd r = [Save (wallets (fst r)), Reply (add_done ''Whale One'' ''0xaaaaaaaaaa'' 2)])"
proof -
  define t where "t = \<lparr>wallets = [(''0xaaaaaaaaaa'', ''Alpha''), (''0xbbbbbbbbbb'', ''Beta'')], seen_txs = {}\<rparr>"
  define r where "r = cmd_add env0 [''0XAAAAAAAAAA'', ''Whale'', ''One''] t"
  have 1: "''0xaaaaaaaaaa'' = lower env0 (strip env0 ''0XAAAAAAAAAA'')" by code_simp
  have 2: "''0xaaaaaaaaaa'' \<in> fst ` set (wallets t)" by (simp add: t_def)
  have 3: "startswith ''0xaaaaaaaaaa'' ''0x''" by code_simp
  have 4: "10 \<le> py_len ''0xaaaaaaaaaa''" by code_simp
  have 5: "''Whale One'' = (if [''Whale'', ''One''] \<noteq> [] then join '' '' [''Whale'', ''One'']
                            else ''Wallet '' @ py_take 8 ''0xaaaaaaaaaa'')"
    by simp
  note th = cmd_add_existing [OF 1 2 3 4 5 r_def]
  have w: "wallets (fst r) = [(''0xaaaaaaaaaa'', ''Whale One''), (''0xbbbbbbbbbb'', ''Beta'')]"
    unfolding r_def t_def by code_simp
  from th w show ?thesis unfolding r_def t_def Let_def by (simp add: numeral_2_eq_2)
qed

text \<open>
  C10 as stated fails: started with TRACKED_WALLETS=0xabc, the registry holds the
  address "0xabc"; add with that address and a new name is rejected, and the name stays.
  The texts are all ASCII, so that nothing here depends on the environment.
\<close>

theorem cmd_add_existing_short_rejected:
  "\<forall>e. init e ''0xabc'' None = \<lparr>wallets = [(''0xabc'', ''Wallet 0xabc'')], seen_txs = {}\<rparr> \<and>
        cmd_add e [''0xabc'', ''Whale''] (init e ''0xabc'' None) =
          (init e ''0xabc'' None, [Reply add_invalid])"
proof -
  have a: "is_ascii ''0xabc''" by code_simp
  have sp: "ascii_split ''0xabc'' = [''0xabc'']" by code_simp
  have n: "ascii_lower (ascii_strip ''0xabc'') = ''0xabc''" by code_simp
  have s: "startswith ''0xabc'' ''0x''" and l: "py_len ''0xabc'' < 10"
    and tk: "py_take 8 ''0xabc'' = ''0xabc''" by code_simp+
  have i: "init e ''0xabc'' None = \<lparr>wallets = [(''0xabc'', ''Wallet 0xabc'')], seen_txs = {}\<rparr>" for e
    using a by (simp add: init_def load_wallets_def split_ws_def sp lower_strip_ascii [OF a] n s tk Let_def)
  show ?thesis
    unfolding i by (simp add: cmd_add_def Let_def lower_strip_ascii [OF a] n s l)
qed

subsection \<open>The scheduler\<close>

text \<open>
  C3, as the code has it. \<open>run\<close> registers one repeating job: the summary pass, 60
  seconds after the start and every 3600 seconds from then on. Nothing else is ever due.
\<close>

theorem run_schedules_summary_only:
  "job_queue (fst (run e t)) = [\<lparr>callback = Periodic_summary, interval = 3600, first = 60\<rparr>] \<and>
   due (fst (run e t)) s = (if 60 \<le> s \<and> (s - 60) mod 3600 = 0 then [Periodic_summary] else [])"
  by (simp add: run_def due_def fires_def SUMMARY_INTERVAL_HOURS_def)

text \<open>
  C3 as stated fails: in no run is the notification pass (\<open>periodic_check\<close>, which
  calls \<open>check_new_trades\<close>) ever due. It is defined and never registered.
\<close>

theorem periodic_check_never_due:
  "\<not> (\<exists>e t s. Periodic_check \<in> set (due (fst (run e t)) s))"
  by (simp add: run_def due_def fires_def)

subsection \<open>Case-insensitive comparison\<close>

lemma of_char_upper_char:
  "(of_char (upper_char c) :: nat) = (let n = of_char c in if 97 \<le> n \<and> n \<le> 122 then n - 32 else n)"
  by (auto simp: upper_char_def Let_def)

lemma of_char_lower_char:
  "(of_char (lower_char c) :: nat) = (let n = of_char c in if 65 \<le> n \<and> n \<le> 90 then n + 32 else n)"
  by (auto simp: lower_char_def Let_def)

lemma case_arith:
  fixes n m :: nat
  shows "((if 97 \<le> n \<and> n \<le> 122 then n - 32 else n) = (if 97 \<le> m \<and> m \<le> 122 then m - 32 else m)) \<longleftrightarrow>
         ((if 65 \<le> n \<and> n \<le> 90 then n + 32 else n) = (if 65 \<le> m \<and> m \<le> 90 then m + 32 else m))"
  by auto

lemma upper_char_eq_iff: "upper_char c = upper_char d \<longleftrightarrow> lower_char c = lower_char d"
proof -
  have "upper_char c = upper_char d \<longleftrightarrow> (of_char (upper_char c) :: nat) = of_char (upper_char d)"
    by (simp only: of_char_eq_iff)
  also have "\<dots> \<longleftrightarrow> (of_char (lower_char c) :: nat) = of_char (lower_char d)"
    unfolding of_char_upper_char of_char_lower_char Let_def by (rule case_arith)
  also have "\<dots> \<longleftrightarrow> lower_char c = lower_char d"
    by (simp only: of_char_eq_iff)
  finally show ?thesis .
qed

lemma letter_arith:
  fixes n m :: nat
  shows "(n = m \<or> (65 \<le> n \<and> n \<le> 90 \<and> m = n + 32) \<or> (65 \<le> m \<and> m \<le> 90 \<and> n = m + 32)) \<longleftrightarrow>
         ((if 97 \<le> n \<and> n \<le> 122 then n - 32 else n) = (if 97 \<le> m \<and> m \<le> 122 then m - 32 else m))"
  by auto

lemma same_letter_iff: "same_letter c d \<longleftrightarrow> upper_char c = upper_char d"
proof -
  have "upper_char c = upper_char d \<longleftrightarrow> (of_char (upper_char c) :: nat) = of_char (upper_char d)"
    by (simp only: of_char_eq_iff)
  also have "\<dots> \<longleftrightarrow> same_letter c d"
    unfolding of_char_upper_char same_letter_def Let_def by (rule letter_arith [symmetric])
  finally show ?thesis by simp
qed

lemma ascii_upper_eq_iff: "ascii_upper s = ascii_upper t \<longleftrightarrow> ci_equal s t"
proof (induction s arbitrary: t)
  case Nil
  then show ?case by (auto simp: ascii_upper_def ci_equal_def)
next
  case (Cons c s)
  then show ?case
    by (cases t) (auto simp: ascii_upper_def ci_equal_def same_letter_iff)
qed

lemma ci_equal_lower: "ci_equal s t \<longleftrightarrow> ascii_lower s = ascii_lower t"
proof (induction s arbitrary: t)
  case Nil
  then show ?case by (auto simp: ascii_lower_def ci_equal_def)
next
  case (Cons c s)
  then show ?case
    by (cases t) (auto simp: ascii_lower_def ci_equal_def same_letter_iff upper_char_eq_iff)
qed

lemma upper_BUY: "is_ascii s \<Longrightarrow> upper e s = ''BUY'' \<longleftrightarrow> ci_equal s ''BUY''"
proof -
  assume a: "is_ascii s"
  have "ascii_upper ''BUY'' = ''BUY''" by code_simp
  with ascii_upper_eq_iff [of s "''BUY''"] a show ?thesis by (simp add: upper_def)
qed

lemma upper_SELL: "is_ascii s \<Longrightarrow> upper e s = ''SELL'' \<longleftrightarrow> ci_equal s ''SELL''"
proof -
  assume a: "is_ascii s"
  have "ascii_upper ''SELL'' = ''SELL''" by code_simp
  with ascii_upper_eq_iff [of s "''SELL''"] a show ?thesis by (simp add: upper_def)
qed

subsection \<open>One record of the summary pass\<close>

lemma market_of_dict_set:
  "market_of (dict_set mb k m) k' = (if k' = k then m else market_of mb k')"
  by (simp add: market_of_def map_of_dict_set)

lemma market_of_member:
  "distinct (map fst mb) \<Longrightarrow> (k, data) \<in> set mb \<Longrightarrow> market_of mb k = data"
  by (simp add: market_of_def)

lemma summary_record_skip:
  "\<not> qualifying act \<Longrightarrow> summary_record e address name act st = Inr st"
  by (auto simp: summary_record_def qualifying_def Let_def)

lemma summary_record_Inr:
  assumes "summary_record e address name act (mb, tot) = Inr (mb', tot')" and "qualifying act"
  shows "\<exists>m'. mb' = dict_set mb (title_key act) m' \<and> tot' = tot + 1 \<and>
              wallet_names m' = wallet_names (market_of mb (title_key act)) @ [name] \<and>
              trader_names m' = insert name (trader_names (market_of mb (title_key act)))"
  using assms
  by (auto simp: summary_record_def qualifying_def title_key_def Let_def
           split: sum.splits if_splits json.splits)

text \<open>
  C5. A record of type TRADE with a non-empty title that the pass folds (its size and
  price convert with \<^verbatim>\<open>float()\<close>, its side is a text or absent) adds one to the trade
  counter and changes the aggregate of its market, a fresh one at the end of the dict
  when the title is new, exactly so: the wallet address joins the wallet set, the
  display name is appended to the name list and joins the trader-name set, the size is
  added to the volume by the float addition, the price is appended iff it is positive,
  the outcome iff it is non-empty, the BUY counter grows by one iff the side in upper
  case is "BUY" and the SELL counter iff it is "SELL", never both. For a side that is all
  ASCII that is: iff the side is "BUY", or "SELL", up to the case of its letters. No
  other market changes.
\<close>

theorem summary_record_trade:
  assumes "is_dict act" and "dict_get act ''type'' JNull = JStr ''TRADE''"
    and "title = dict_get act ''title'' (JStr '''')" and "truthy title" and "hashable title"
    and "py_float e (py_or (dict_get act ''usdcSize'' (JNum 0)) (JNum 0)) = Inr usdc"
    and "py_float e (py_or (dict_get act ''price'' (JNum 0)) (JNum 0)) = Inr price"
    and "dict_get act ''side'' (JStr '''') = JStr side"
    and "outcome = dict_get act ''outcome'' (JStr '''')"
    and "m = market_of market_buys (py_key title)"
  shows "\<exists>mb'. summary_record e address name act (market_buys, total_trades) = Inr (mb', total_trades + 1) \<and>
           map fst mb' = (if py_key title \<in> set (map fst market_buys) then map fst market_buys
                          else map fst market_buys @ [py_key title]) \<and>
           (\<forall>k. k \<noteq> py_key title \<longrightarrow> market_of mb' k = market_of market_buys k) \<and>
           market_of mb' (py_key title) =
             m\<lparr>market_wallets := insert address (market_wallets m),
               wallet_names := wallet_names m @ [name],
               trader_names := insert name (trader_names m),
               total_usdc := fadd e (total_usdc m) usdc,
               prices := (if positive price then prices m @ [price] else prices m),
               outcomes := (if truthy outcome then outcomes m @ [outcome] else outcomes m),
               buy_count := (if upper e side = ''BUY'' then buy_count m + 1 else buy_count m),
               sell_count := (if upper e side = ''SELL'' then sell_count m + 1 else sell_count m)\<rparr> \<and>
           \<not> (upper e side = ''BUY'' \<and> upper e side = ''SELL'') \<and>
           (is_ascii side \<longrightarrow>
              (upper e side = ''BUY'' \<longleftrightarrow> ci_equal side ''BUY'') \<and>
              (upper e side = ''SELL'' \<longleftrightarrow> ci_equal side ''SELL''))"
proof -
  have ne: "\<not> (upper e side = ''BUY'' \<and> upper e side = ''SELL'')" by auto
  have ci: "is_ascii side \<longrightarrow>
              (upper e side = ''BUY'' \<longleftrightarrow> ci_equal side ''BUY'') \<and>
              (upper e side = ''SELL'' \<longleftrightarrow> ci_equal side ''SELL'')"
    using upper_BUY [of side e] upper_SELL [of side e] by blast
  have "\<exists>mb'. summary_record e address name act (market_buys, total_trades) = Inr (mb', total_trades + 1) \<and>
           map fst mb' = (if py_key title \<in> set (map fst market_buys) then map fst market_buys
                          else map fst market_buys @ [py_key title]) \<and>
           (\<forall>k. k \<noteq> py_key title \<longrightarrow> market_of mb' k = market_of market_buys k) \<and>
           market_of mb' (py_key title) =
             m\<lparr>market_wallets := insert address (market_wallets m),
               wallet_names := wallet_names m @ [name],
               trader_names := insert name (trader_names m),
               total_usdc := fadd e (total_usdc m) usdc,
               prices := (if positive price then prices m @ [price] else prices m),
               outcomes := (if truthy outcome then outcomes m @ [outcome] else outcomes m),
               buy_count := (if upper e side = ''BUY'' then buy_count m + 1 else buy_count m),
               sell_count := (if upper e side = ''SELL'' then sell_count m + 1 else sell_count m)\<rparr>"
    using assms ne
    by (auto simp: summary_record_def Let_def market_of_dict_set keys_dict_set)
  with ne ci show ?thesis by blast
qed

theorem summary_record_trade_witness:
  "\<exists>mb'. summary_record env0 ''0xaaaaaaaaaa'' ''Alpha''
            (trade ''0x01'' ''buy'' ''Will X happen?'' 100 (1/2) ''Yes'') ([], 0) = Inr (mb', 1) \<and>
         market_of mb' (JStr ''Will X happen?'') =
           \<lparr>market_wallets = {''0xaaaaaaaaaa''}, wallet_names = [''Alpha''], buy_count = 1,
            sell_count = 0, total_usdc = Float 100, prices = [Float (1/2)], outcomes = [JStr ''Yes''],
            trader_names = {''Alpha''}\<rparr>"
proof -
  let ?act = "trade ''0x01'' ''buy'' ''Will X happen?'' 100 (1/2) ''Yes''"
  have 1: "is_dict ?act" and 2: "dict_get ?act ''type'' JNull = JStr ''TRADE''"
    and 3: "JStr ''Will X happen?'' = dict_get ?act ''title'' (JStr '''')"
    and 4: "truthy (JStr ''Will X happen?'')" and 5: "hashable (JStr ''Will X happen?'')"
    and 6: "py_float env0 (py_or (dict_get ?act ''usdcSize'' (JNum 0)) (JNum 0)) = Inr (Float 100)"
    and 7: "py_float env0 (py_or (dict_get ?act ''price'' (JNum 0)) (JNum 0)) = Inr (Float (1/2))"
    and 8: "dict_get ?act ''side'' (JStr '''') = JStr ''buy''"
    and 9: "JStr ''Yes'' = dict_get ?act ''outcome'' (JStr '''')"
    by (simp_all add: trade_def py_or_def env0_def)
  have c: "upper env0 ''buy'' = ''BUY''" "upper env0 ''buy'' \<noteq> ''SELL''" "is_ascii ''buy''"
    by code_simp+
  from summary_record_trade [OF 1 2 3 4 5 6 7 8 9 refl, where address = "''0xaaaaaaaaaa''"
      and name = "''Alpha''" and total_trades = 0 and market_buys = "[]"] c
  show ?thesis by (auto simp: market_of_def new_market_def env0_def)
qed

subsection \<open>The order of the markets\<close>

lemma encounter_order_snoc:
  "encounter_order (xs @ [k]) = (if k \<in> set xs then encounter_order xs else encounter_order xs @ [k])"
  by (simp add: encounter_order_def)

lemma set_encounter_order [simp]: "set (encounter_order xs) = set xs"
  by (simp add: encounter_order_def)

lemma encounter_order_distinct: "distinct xs \<Longrightarrow> encounter_order xs = xs"
  by (simp add: encounter_order_def distinct_remdups_id)

lemma distinct_encounter_order [simp]: "distinct (encounter_order xs)"
  by (simp add: encounter_order_def)

lemma encounter_order_idem_append:
  "encounter_order (encounter_order xs @ ys) = encounter_order (xs @ ys)"
proof (induction ys rule: rev_induct)
  case Nil
  then show ?case by (simp add: encounter_order_distinct)
next
  case (snoc y ys)
  have "encounter_order (encounter_order xs @ ys @ [y]) = encounter_order ((encounter_order xs @ ys) @ [y])"
    by simp
  also have "\<dots> = (if y \<in> set (xs @ ys) then encounter_order (encounter_order xs @ ys)
                    else encounter_order (encounter_order xs @ ys) @ [y])"
    by (simp only: encounter_order_snoc) simp
  also have "\<dots> = encounter_order ((xs @ ys) @ [y])"
    by (simp only: encounter_order_snoc snoc.IH)
  finally show ?case by simp
qed

lemma summary_record_keys:
  assumes "summary_record e address name act (mb, tot) = Inr (mb', tot')"
  shows "map fst mb' = (if qualifying act then (if title_key act \<in> set (map fst mb) then map fst mb else map fst mb @ [title_key act]) else map fst mb)"
proof (cases "qualifying act")
  case True
  from summary_record_Inr [OF assms True] show ?thesis using True
    by (force simp: keys_dict_set)
next
  case False
  with assms show ?thesis by (simp add: summary_record_skip)
qed

lemma summary_activities_keys:
  assumes "summary_activities e address name acts (mb, tot) = Inr (mb', tot')"
  shows "encounter_order (map fst mb') = encounter_order (map fst mb @ map title_key (filter qualifying acts))"
  using assms
proof (induction acts arbitrary: mb tot)
  case Nil
  then show ?case by simp
next
  case (Cons act acts)
  from Cons.prems obtain mb1 tot1 where
    s: "summary_record e address name act (mb, tot) = Inr (mb1, tot1)"
    and r: "summary_activities e address name acts (mb1, tot1) = Inr (mb', tot')"
    by (auto split: sum.splits)
  have k: "encounter_order (map fst mb1 @ ys) = encounter_order (map fst mb @ (if qualifying act then [title_key act] else []) @ ys)" for ys
  proof -
    have "encounter_order (map fst mb1) = encounter_order (map fst mb @ (if qualifying act then [title_key act] else []))"
      using summary_record_keys [OF s] by (auto simp: encounter_order_snoc)
    then have "encounter_order (encounter_order (map fst mb1) @ ys) =
               encounter_order (encounter_order (map fst mb @ (if qualifying act then [title_key act] else [])) @ ys)"
      by simp
    then show ?thesis by (simp only: encounter_order_idem_append append_assoc)
  qed
  from Cons.IH [OF r] k show ?case by auto
qed

lemma summary_record_distinct:
  assumes "summary_record e address name act (mb, tot) = Inr (mb', tot')" "distinct (map fst mb)"
  shows "distinct (map fst mb')"
  using summary_record_keys [OF assms(1)] assms(2) by (auto split: if_splits)

lemma summary_activities_distinct:
  assumes "summary_activities e address name acts (mb, tot) = Inr (mb', tot')" "distinct (map fst mb)"
  shows "distinct (map fst mb')"
  using assms
proof (induction acts arbitrary: mb tot)
  case Nil
  then show ?case by simp
next
  case (Cons act acts)
  from Cons.prems obtain mb1 tot1 where
    s: "summary_record e address name act (mb, tot) = Inr (mb1, tot1)"
    and r: "summary_activities e address name acts (mb1, tot1) = Inr (mb', tot')"
    by (auto split: sum.splits)
  from Cons.IH [OF r summary_record_distinct [OF s Cons.prems(2)]] show ?case .
qed

lemma wallet_records_Inr:
  "py_iter (get_wallet_activity e (fst w) 50) = Inr acts \<Longrightarrow> wallet_records e w = filter qualifying acts"
  by (simp add: wallet_records_def)

lemma aggregate_keys:
  assumes "aggregate e ws (mb, tot) = Inr (mb', tot')"
  shows "encounter_order (map fst mb') =
         encounter_order (map fst mb @ map title_key (concat (map (wallet_records e) ws)))"
  using assms
proof (induction ws arbitrary: mb tot)
  case Nil
  then show ?case by simp
next
  case (Cons w ws)
  from Cons.prems obtain mb1 tot1 where
    s: "summary_wallet e w (mb, tot) = Inr (mb1, tot1)"
    and r: "aggregate e ws (mb1, tot1) = Inr (mb', tot')"
    by (auto split: sum.splits)
  from s obtain acts where it: "py_iter (get_wallet_activity e (fst w) 50) = Inr acts"
    and a: "summary_activities e (fst w) (snd w) acts (mb, tot) = Inr (mb1, tot1)"
    by (auto simp: summary_wallet_def split: sum.splits)
  let ?rest = "map title_key (concat (map (wallet_records e) ws))"
  have "encounter_order (map fst mb') = encounter_order (map fst mb1 @ ?rest)"
    by (rule Cons.IH [OF r])
  also have "\<dots> = encounter_order (encounter_order (map fst mb1) @ ?rest)"
    by (simp only: encounter_order_idem_append)
  also have "\<dots> = encounter_order (encounter_order (map fst mb @ map title_key (filter qualifying acts)) @ ?rest)"
    by (simp only: summary_activities_keys [OF a])
  also have "\<dots> = encounter_order ((map fst mb @ map title_key (filter qualifying acts)) @ ?rest)"
    by (simp only: encounter_order_idem_append)
  finally show ?case by (simp add: wallet_records_Inr [OF it])
qed

lemma aggregate_distinct:
  assumes "aggregate e ws (mb, tot) = Inr (mb', tot')" "distinct (map fst mb)"
  shows "distinct (map fst mb')"
  using assms
proof (induction ws arbitrary: mb tot)
  case Nil
  then show ?case by simp
next
  case (Cons w ws)
  from Cons.prems obtain mb1 tot1 where
    s: "summary_wallet e w (mb, tot) = Inr (mb1, tot1)"
    and r: "aggregate e ws (mb1, tot1) = Inr (mb', tot')"
    by (auto split: sum.splits)
  from s obtain acts where
    a: "summary_activities e (fst w) (snd w) acts (mb, tot) = Inr (mb1, tot1)"
    by (auto simp: summary_wallet_def split: sum.splits)
  from Cons.IH [OF r summary_activities_distinct [OF a Cons.prems(2)]] show ?case .
qed

lemma aggregate_encounter_order:
  assumes "aggregate e ws ([], 0) = Inr (mb, tot)"
  shows "map fst mb = encounter_order (map title_key (concat (map (wallet_records e) ws)))"
  using aggregate_keys [OF assms] aggregate_distinct [OF assms]
  by (simp add: encounter_order_distinct)

subsection \<open>The ranking\<close>

lemma prefix_filter_take: "prefix (filter P (take n xs)) (filter P xs)"
proof -
  have "filter P xs = filter P (take n xs) @ filter P (drop n xs)"
    by (metis append_take_drop_id filter_append)
  then show ?thesis by (simp add: prefixI)
qed

lemma sorted_markets_sorted:
  "sorted_wrt (\<lambda>x y. buy_count (snd x) \<ge> buy_count (snd y)) (sorted_markets mb)"
proof -
  have "sorted (map (\<lambda>x. - int (buy_count (snd x))) (sorted_markets mb))"
    unfolding sorted_markets_def by (rule sorted_sort_key)
  then show ?thesis by (simp add: sorted_map)
qed

lemma sorted_markets_stable:
  "filter (\<lambda>x. buy_count (snd x) = n) (sorted_markets mb) = filter (\<lambda>x. buy_count (snd x) = n) mb"
proof -
  have "filter (\<lambda>x. - int (buy_count (snd x)) = - int n) (sorted_markets mb) =
        filter (\<lambda>x. - int (buy_count (snd x)) = - int n) mb"
    unfolding sorted_markets_def by (rule sort_key_stable)
  then show ?thesis by simp
qed

lemma render_markets_lines:
  "render_markets e i xs = Inr ls \<Longrightarrow> ls = concat (map2 (entry_lines e) [i..<i + length xs] xs)"
proof (induction xs arbitrary: i ls)
  case Nil
  then show ?case by simp
next
  case (Cons x xs)
  from Cons.prems obtain l1 rest where
    a: "render_market e i x = Inr l1" and b: "render_markets e (Suc i) xs = Inr rest"
    and c: "ls = l1 @ rest"
    by (auto split: sum.splits)
  have "[i..<i + length (x # xs)] = i # [Suc i..<Suc i + length xs]"
    using upt_rec [of i "i + length (x # xs)"] by simp
  with Cons.IH [OF b] a c show ?case by (simp add: entry_lines_def)
qed

lemma render_market_printable:
  assumes "printable (JStr title, data)"
  shows "\<exists>l. render_market e i (JStr title, data) =
               Inr [str_nat i @ ''. '' @ py_take 55 title,
                    ''   '' @ fire (buy_count data) @ ''BUY: '' @ str_nat (buy_count data) @
                      '' | SELL: '' @ str_nat (sell_count data) @
                      '' | Wallets: '' @ str_nat (card (market_wallets data)),
                    l, who_line e data, '''']"
  using assms by (simp add: render_market_def printable_def Let_def)

lemma render_market_Inr: "printable x \<Longrightarrow> \<exists>ls. render_market e i x = Inr ls"
proof -
  assume p: "printable x"
  then obtain title where "fst x = JStr title"
    by (cases "fst x") (simp_all add: printable_def)
  then have x: "x = (JStr title, snd x)" by (cases x) simp
  from p render_market_printable [of title "snd x" e i] x show ?thesis by metis
qed

lemma render_market_not_printable: "\<not> printable x \<Longrightarrow> render_market e i x = Inl TypeError"
  by (auto simp: render_market_def printable_def Let_def split: json.splits)

lemma render_markets_not_printable:
  "\<not> list_all printable xs \<Longrightarrow> render_markets e i xs = Inl TypeError"
proof (induction xs arbitrary: i)
  case Nil
  then show ?case by simp
next
  case (Cons x xs)
  show ?case
  proof (cases "printable x")
    case False
    then show ?thesis by (simp add: render_market_not_printable)
  next
    case True
    with Cons.prems have "\<not> list_all printable xs" by simp
    from Cons.IH [OF this] render_market_Inr [OF True, of e i] show ?thesis by auto
  qed
qed

lemma render_markets_printable:
  "list_all printable xs \<Longrightarrow>
   render_markets e i xs = Inr (concat (map2 (entry_lines e) [i..<i + length xs] xs))"
proof (induction xs arbitrary: i)
  case Nil
  then show ?case by simp
next
  case (Cons x xs)
  from Cons.prems have p: "printable x" and ps: "list_all printable xs" by simp_all
  from render_market_Inr [OF p, of e i] obtain l1 where a: "render_market e i x = Inr l1" by blast
  have u: "[i..<i + length (x # xs)] = i # [Suc i..<Suc i + length xs]"
    using upt_rec [of i "i + length (x # xs)"] by simp
  from Cons.IH [OF ps, of "Suc i"] a show ?case
    unfolding u by (simp add: entry_lines_def)
qed

lemma report_of_aggregate:
  assumes "aggregate e (wallets t) ([], 0) = Inr (mb, tot)"
  shows "generate_wallet_summary e t =
           (if mb = [] then Inr ''''
            else if list_all printable (ranked mb)
            then Inr (join nl (header e (length (wallets t)) tot @
                       concat (map2 (entry_lines e) [1..<Suc (length (ranked mb))] (ranked mb))))
            else Inl TypeError)"
proof (cases "list_all printable (ranked mb)")
  case True
  from render_markets_printable [OF True, of e 1] assms True show ?thesis
    by (simp add: generate_wallet_summary_def)
next
  case False
  from render_markets_not_printable [OF False, of e 1] assms False show ?thesis
    by (simp add: generate_wallet_summary_def)
qed

text \<open>
  C4. When the aggregation of a pass succeeds, the report that
  \<open>generate_wallet_summary\<close> returns is the header followed by the lines of the markets
  \<open>ranked\<close>, numbered from 1, in their order; it is empty when the pass met no market,
  and the generator raises when a listed market cannot be printed. The markets listed
  are at most 15 of the markets of the pass, all of them when there are no more than 15,
  and no market left out has more BUY trades than a listed one. They stand in descending
  order of their BUY counter, and markets with the same counter stand in the order they
  have in \<^verbatim>\<open>market_buys\<close>, which is the order in which their titles were first met in
  the pass. The lines of a market are five: its number and the first 55 characters of its
  title, its counters, its volume and price, its traders, and an empty line.
\<close>

theorem ranked_sorted_stable_bounded:
  assumes "aggregate e (wallets t) ([], 0) = Inr (mb, tot)"
  shows "generate_wallet_summary e t =
           (if mb = [] then Inr ''''
            else if list_all printable (ranked mb)
            then Inr (join nl (header e (length (wallets t)) tot @
                       concat (map2 (entry_lines e) [1..<Suc (length (ranked mb))] (ranked mb))))
            else Inl TypeError) \<and>
         length (ranked mb) \<le> 15 \<and>
         length (ranked mb) = min 15 (length mb) \<and>
         set (ranked mb) \<subseteq> set mb \<and>
         (\<forall>x\<in>set mb. x \<notin> set (ranked mb) \<longrightarrow>
            (\<forall>y\<in>set (ranked mb). buy_count (snd x) \<le> buy_count (snd y))) \<and>
         sorted_wrt (\<lambda>x y. buy_count (snd x) \<ge> buy_count (snd y)) (ranked mb) \<and>
         (\<forall>n. prefix (filter (\<lambda>x. buy_count (snd x) = n) (ranked mb))
                     (filter (\<lambda>x. buy_count (snd x) = n) mb)) \<and>
         map fst mb = encounter_order (map title_key (concat (map (wallet_records e) (wallets t)))) \<and>
         (\<forall>i title data. printable (JStr title, data) \<longrightarrow>
            (\<exists>l. entry_lines e i (JStr title, data) =
                   [str_nat i @ ''. '' @ py_take 55 title,
                    ''   '' @ fire (buy_count data) @ ''BUY: '' @ str_nat (buy_count data) @
                      '' | SELL: '' @ str_nat (sell_count data) @
                      '' | Wallets: '' @ str_nat (card (market_wallets data)),
                    l, who_line e data, '''']))"
proof -
  have "sorted_wrt (\<lambda>x y. buy_count (snd x) \<ge> buy_count (snd y)) (ranked mb)"
    unfolding ranked_def by (rule sorted_wrt_take) (rule sorted_markets_sorted)
  moreover have "prefix (filter (\<lambda>x. buy_count (snd x) = n) (ranked mb))
                        (filter (\<lambda>x. buy_count (snd x) = n) mb)" for n
    using prefix_filter_take [of "\<lambda>x. buy_count (snd x) = n" 15 "sorted_markets mb"]
    by (simp add: ranked_def sorted_markets_stable)
  moreover have "length (ranked mb) \<le> 15" by (simp add: ranked_def)
  moreover have "length (ranked mb) = min 15 (length mb)"
    by (simp add: ranked_def sorted_markets_def min.commute)
  moreover have "set (ranked mb) \<subseteq> set mb"
    using set_take_subset [of 15 "sorted_markets mb"] by (simp add: ranked_def sorted_markets_def)
  moreover have "buy_count (snd x) \<le> buy_count (snd y)"
    if "x \<in> set mb" "x \<notin> set (ranked mb)" "y \<in> set (ranked mb)" for x y
  proof -
    have "sorted_wrt (\<lambda>x y. buy_count (snd x) \<ge> buy_count (snd y))
            (take 15 (sorted_markets mb) @ drop 15 (sorted_markets mb))"
      using sorted_markets_sorted [of mb] by simp
    then have r: "\<forall>a\<in>set (take 15 (sorted_markets mb)). \<forall>b\<in>set (drop 15 (sorted_markets mb)).
                  buy_count (snd b) \<le> buy_count (snd a)"
      unfolding sorted_wrt_append by blast
    have "x \<in> set (take 15 (sorted_markets mb) @ drop 15 (sorted_markets mb))"
      using that(1) by (simp add: sorted_markets_def)
    then have "x \<in> set (drop 15 (sorted_markets mb))"
      using that(2) unfolding set_append ranked_def by blast
    with r that(3) show ?thesis unfolding ranked_def by blast
  qed
  moreover note aggregate_encounter_order [OF assms]
  moreover note report_of_aggregate [OF assms]
  moreover have "\<exists>l. entry_lines e i (JStr title, data) =
                   [str_nat i @ ''. '' @ py_take 55 title,
                    ''   '' @ fire (buy_count data) @ ''BUY: '' @ str_nat (buy_count data) @
                      '' | SELL: '' @ str_nat (sell_count data) @
                      '' | Wallets: '' @ str_nat (card (market_wallets data)),
                    l, who_line e data, '''']"
    if "printable (JStr title, data)" for i title data
    using render_market_printable [OF that, of e i] by (auto simp: entry_lines_def)
  ultimately show ?thesis by blast
qed

theorem ranked_sorted_stable_bounded_witness:
  "\<exists>mb tot. aggregate ranking_env two_wallets ([], 0) = Inr (mb, tot) \<and>
     map fst mb = [JStr ''M1'', JStr ''M2'', JStr ''M3''] \<and>
     map (\<lambda>x. buy_count (snd x)) mb = [1, 2, 1] \<and>
     map fst (ranked mb) = [JStr ''M2'', JStr ''M1'', JStr ''M3''] \<and>
     length (ranked mb) \<le> 15 \<and>
     sorted_wrt (\<lambda>x y. buy_count (snd x) \<ge> buy_count (snd y)) (ranked mb) \<and>
     generate_wallet_summary ranking_env \<lparr>wallets = two_wallets, seen_txs = {}\<rparr> =
       Inr (join nl (header ranking_env 2 5 @
                     concat (map2 (entry_lines ranking_env) [1..<4] (ranked mb)))) \<and>
     map hd (map2 (entry_lines ranking_env) [1..<4] (ranked mb)) = [''1. M2'', ''2. M1'', ''3. M3'']"
proof -
  have "case aggregate ranking_env two_wallets ([], 0) of
          Inl err \<Rightarrow> False
        | Inr r \<Rightarrow> map fst (fst r) = [JStr ''M1'', JStr ''M2'', JStr ''M3''] \<and>
                   map (\<lambda>x. buy_count (snd x)) (fst r) = [1, 2, 1] \<and>
                   map fst (ranked (fst r)) = [JStr ''M2'', JStr ''M1'', JStr ''M3''] \<and>
                   snd r = 5 \<and> list_all printable (ranked (fst r)) \<and>
                   map hd (map2 (entry_lines ranking_env) [1..<4] (ranked (fst r))) =
                     [''1. M2'', ''2. M1'', ''3. M3'']"
    by code_simp
  then obtain mb tot where a: "aggregate ranking_env two_wallets ([], 0) = Inr (mb, tot)"
    and b: "map fst mb = [JStr ''M1'', JStr ''M2'', JStr ''M3'']"
           "map (\<lambda>x. buy_count (snd x)) mb = [1, 2, 1]"
           "map fst (ranked mb) = [JStr ''M2'', JStr ''M1'', JStr ''M3'']"
    and c: "tot = 5" "list_all printable (ranked mb)"
           "map hd (map2 (entry_lines ranking_env) [1..<4] (ranked mb)) = [''1. M2'', ''2. M1'', ''3. M3'']"
    by (auto split: sum.splits)
  let ?t = "\<lparr>wallets = two_wallets, seen_txs = {}\<rparr>"
  have w: "wallets ?t = two_wallets" "length two_wallets = 2" by (simp_all add: two_wallets_def)
  from b(1) have ne: "mb \<noteq> []" by auto
  from b(3) have l: "length (ranked mb) = 3" using length_map [of fst "ranked mb"] by simp
  have u: "[1..<Suc 3] = [1..<4]" by (simp add: eval_nat_numeral)
  from a have a': "aggregate ranking_env (wallets ?t) ([], 0) = Inr (mb, tot)" by (simp only: w)
  note th = ranked_sorted_stable_bounded [OF a']
  from th have g: "generate_wallet_summary ranking_env ?t =
       Inr (join nl (header ranking_env 2 5 @
                     concat (map2 (entry_lines ranking_env) [1..<4] (ranked mb))))"
    using ne c(1,2) l u w by simp
  from th have s: "length (ranked mb) \<le> 15"
      "sorted_wrt (\<lambda>x y. buy_count (snd x) \<ge> buy_count (snd y)) (ranked mb)"
    by blast+
  from a b c(3) g s show ?thesis
    by (intro exI [of _ mb] exI [of _ tot]) simp
qed

subsection \<open>The names of a market\<close>

lemma summary_activities_names:
  assumes "summary_activities e address name acts (mb, tot) = Inr (mb', tot')"
  shows "wallet_names (market_of mb' k) =
           wallet_names (market_of mb k) @ names_for k (map (\<lambda>act. (name, act)) (filter qualifying acts)) \<and>
         trader_names (market_of mb' k) =
           trader_names (market_of mb k) \<union> set (names_for k (map (\<lambda>act. (name, act)) (filter qualifying acts)))"
  using assms
proof (induction acts arbitrary: mb tot)
  case Nil
  then show ?case by (simp add: names_for_def)
next
  case (Cons act acts)
  from Cons.prems obtain mb1 tot1 where
    s: "summary_record e address name act (mb, tot) = Inr (mb1, tot1)"
    and r: "summary_activities e address name acts (mb1, tot1) = Inr (mb', tot')"
    by (auto split: sum.splits)
  show ?case
  proof (cases "qualifying act")
    case False
    with s have "mb1 = mb" by (simp add: summary_record_skip)
    with Cons.IH [OF r] False show ?thesis by (simp add: names_for_def)
  next
    case True
    from summary_record_Inr [OF s True] obtain m' where
      m: "mb1 = dict_set mb (title_key act) m'"
         "wallet_names m' = wallet_names (market_of mb (title_key act)) @ [name]"
         "trader_names m' = insert name (trader_names (market_of mb (title_key act)))"
      by blast
    from Cons.IH [OF r] m True show ?thesis
      by (auto simp: names_for_def market_of_dict_set)
  qed
qed

lemma names_for_append: "names_for k (xs @ ys) = names_for k xs @ names_for k ys"
  by (simp add: names_for_def)

lemma aggregate_names:
  assumes "aggregate e ws (mb, tot) = Inr (mb', tot')"
  shows "wallet_names (market_of mb' k) = wallet_names (market_of mb k) @ names_for k (named_records e ws) \<and>
         trader_names (market_of mb' k) = trader_names (market_of mb k) \<union> set (names_for k (named_records e ws))"
  using assms
proof (induction ws arbitrary: mb tot)
  case Nil
  then show ?case by (simp add: named_records_def names_for_def)
next
  case (Cons w ws)
  from Cons.prems obtain mb1 tot1 where
    s: "summary_wallet e w (mb, tot) = Inr (mb1, tot1)"
    and r: "aggregate e ws (mb1, tot1) = Inr (mb', tot')"
    by (auto split: sum.splits)
  from s obtain acts where it: "py_iter (get_wallet_activity e (fst w) 50) = Inr acts"
    and a: "summary_activities e (fst w) (snd w) acts (mb, tot) = Inr (mb1, tot1)"
    by (auto simp: summary_wallet_def split: sum.splits)
  have n: "named_records e (w # ws) = map (\<lambda>act. (snd w, act)) (filter qualifying acts) @ named_records e ws"
    by (simp add: named_records_def wallet_records_Inr [OF it])
  from Cons.IH [OF r, of ] summary_activities_names [OF a, of k] show ?case
    by (auto simp: n names_for_append)
qed

lemma example_aggregate:
  "aggregate example_env two_wallets ([], 0) = Inr ([(JStr ''Will X happen?'', example_market)], 6)"
  by code_simp

text \<open>
  C8, as the code has it. The "who" line of a market (the fourth of its lines) joins
  the elements of the set \<^verbatim>\<open>trader_names\<close>, in the order the set iterates: each
  display name that was accumulated for the market stands there once, however many of
  its trades were met. The list with the duplicates, \<^verbatim>\<open>wallet_names\<close>, is built and
  not printed.
\<close>

theorem who_line_distinct_names:
  assumes "aggregate e ws ([], 0) = Inr (mb, tot)" and "(k, data) \<in> set mb"
    and "distinct (list_of_names e (trader_names data))"
    and "set (list_of_names e (trader_names data)) = trader_names data"
  shows "wallet_names data = names_for k (named_records e ws) \<and>
         (\<exists>ns. who_line e data = ''   '' @ purse @ '' '' @ join '', '' ns \<and>
               distinct ns \<and> set ns = set (wallet_names data)) \<and>
         (\<forall>i ls. render_market e i (k, data) = Inr ls \<longrightarrow> ls ! 3 = who_line e data)"
proof -
  have d: "market_of mb k = data"
    using market_of_member [OF aggregate_distinct [OF assms(1)] assms(2)] by simp
  from aggregate_names [OF assms(1), of k] d
  have w: "wallet_names data = names_for k (named_records e ws)"
    and t: "trader_names data = set (names_for k (named_records e ws))"
    by (simp_all add: market_of_def new_market_def)
  have "who_line e data = ''   '' @ purse @ '' '' @ join '', '' (list_of_names e (trader_names data))"
    by (simp add: who_line_def)
  moreover have "set (list_of_names e (trader_names data)) = set (wallet_names data)"
    using assms(4) w t by simp
  moreover have "ls ! 3 = who_line e data" if "render_market e i (k, data) = Inr ls" for i ls
    using that by (auto simp: render_market_def Let_def split: if_splits json.splits)
  ultimately show ?thesis using w assms(3) by blast
qed

theorem who_line_distinct_names_witness:
  "wallet_names example_market = [''Alpha'', ''Alpha'', ''Alpha'', ''Alpha'', ''Beta'', ''Beta''] \<and>
   (\<exists>ns. who_line example_env example_market = ''   '' @ purse @ '' '' @ join '', '' ns \<and>
         distinct ns \<and> set ns = {''Alpha'', ''Beta''})"
proof -
  have 1: "(JStr ''Will X happen?'', example_market) \<in> set [(JStr ''Will X happen?'', example_market)]"
    by simp
  have 2: "distinct (list_of_names example_env (trader_names example_market))"
    and 3: "set (list_of_names example_env (trader_names example_market)) = trader_names example_market"
    by code_simp+
  have 4: "set (wallet_names example_market) = {''Alpha'', ''Beta''}"
    by (auto simp: example_market_def)
  have 5: "wallet_names example_market = [''Alpha'', ''Alpha'', ''Alpha'', ''Alpha'', ''Beta'', ''Beta'']"
    by (simp add: example_market_def)
  from who_line_distinct_names [OF example_aggregate 1 2 3] 4 5 show ?thesis
    by auto
qed

text \<open>
  C8 as stated fails: in the worked example the names accumulated are Alpha four times
  and Beta twice, and the "who" line is "Alpha, Beta".
\<close>

theorem who_line_no_duplicates:
  "aggregate example_env two_wallets ([], 0) = Inr ([(JStr ''Will X happen?'', example_market)], 6) \<and>
   join '', '' (wallet_names example_market) = ''Alpha, Alpha, Alpha, Alpha, Beta, Beta'' \<and>
   who_line example_env example_market = ''   '' @ purse @ '' Alpha, Beta''"
  by code_simp

subsection \<open>The empty report\<close>

lemma summary_activities_none:
  "filter qualifying acts = [] \<Longrightarrow> summary_activities e address name acts st = Inr st"
  by (induction acts) (auto simp: summary_record_skip split: if_splits)

lemma py_iter_error: "py_iter j = Inl err \<Longrightarrow> err = TypeError"
  by (cases j) auto

lemma aggregate_none:
  assumes "\<forall>w\<in>set ws. wallet_records e w = []"
  shows "(aggregate e ws st = Inr st \<or> aggregate e ws st = Inl TypeError) \<and>
         ((\<forall>w\<in>set ws. \<exists>acts. py_iter (get_wallet_activity e (fst w) 50) = Inr acts) \<longrightarrow>
            aggregate e ws st = Inr st)"
  using assms
proof (induction ws)
  case Nil
  then show ?case by simp
next
  case (Cons w ws)
  show ?case
  proof (cases "py_iter (get_wallet_activity e (fst w) 50)")
    case (Inl err)
    then show ?thesis by (auto simp: summary_wallet_def dest: py_iter_error)
  next
    case (Inr acts)
    with Cons.prems have "filter qualifying acts = []" by (simp add: wallet_records_def)
    then have "summary_wallet e w st = Inr st"
      by (simp add: summary_wallet_def Inr summary_activities_none)
    with Cons show ?thesis by auto
  qed
qed

text \<open>
  When no wallet has a record that the summary counts, the periodic summary and the
  summary command send nothing to the channel. \<open>generate_wallet_summary\<close> returns the
  empty report when the answer for every wallet can be iterated (a list, an object, a
  text), and raises TypeError otherwise.
\<close>

lemma no_records_nothing_sent:
  assumes "\<forall>w\<in>set (wallets t). wallet_records e w = []"
  shows "periodic_summary e t = [] \<and>
         filter is_send (fst (cmd_summary e t)) = [] \<and>
         (generate_wallet_summary e t = Inr '''' \<or> generate_wallet_summary e t = Inl TypeError) \<and>
         ((\<forall>w\<in>set (wallets t). \<exists>acts. py_iter (get_wallet_activity e (fst w) 50) = Inr acts) \<longrightarrow>
            generate_wallet_summary e t = Inr '''')"
  using aggregate_none [OF assms, of "([], 0)"]
  by (auto simp: periodic_summary_def cmd_summary_def is_send_def generate_wallet_summary_def)

lemma not_iterable_raises:
  assumes "w \<in> set ws" and "py_iter (get_wallet_activity e (fst w) 50) = Inl err"
    and "\<forall>w\<in>set ws. wallet_records e w = []"
  shows "aggregate e ws st = Inl TypeError"
  using assms
proof (induction ws)
  case Nil
  then show ?case by simp
next
  case (Cons v ws)
  show ?case
  proof (cases "py_iter (get_wallet_activity e (fst v) 50)")
    case (Inl err')
    then show ?thesis by (auto simp: summary_wallet_def dest: py_iter_error)
  next
    case (Inr acts)
    with Cons.prems(2) have "w \<noteq> v" by auto
    with Cons.prems(1) have m: "w \<in> set ws" by simp
    from Inr Cons.prems(3) have "filter qualifying acts = []" by (simp add: wallet_records_def)
    then have s: "summary_wallet e v st = Inr st"
      by (simp add: summary_wallet_def Inr summary_activities_none)
    from Cons.IH [OF m Cons.prems(2)] Cons.prems(3) s show ?thesis by simp
  qed
qed

text \<open>
  C9 fails where an answer cannot be iterated. No wallet has a record that the summary
  counts, one watched wallet is answered with status 200 and a body that is a JSON
  number, boolean or null: \<^verbatim>\<open>for act in activities\<close> raises TypeError, nothing in
  \<open>generate_wallet_summary\<close> catches it, and no report is returned, empty or not.
  \<open>periodic_summary\<close> catches the exception and sends nothing; the summary command is
  left by it after its first reply. So it is when the wallet Alpha is answered with
  \<open>null\<close>; the notification pass, answered the same, catches the exception in the
  \<^verbatim>\<open>try\<close> around the wallet and completes.
\<close>

theorem not_iterable_no_report:
  "(\<forall>e t w err. w \<in> set (wallets t) \<and> py_iter (get_wallet_activity e (fst w) 50) = Inl err \<and>
       named_records e (wallets t) = [] \<longrightarrow>
       generate_wallet_summary e t = Inl TypeError \<and> generate_wallet_summary e t \<noteq> Inr '''' \<and>
       periodic_summary e t = [] \<and>
       cmd_summary e t = ([Reply (hourglass @ '' Analyse en cours...'')], Some TypeError)) \<and>
   named_records null_env (wallets one_wallet) = [] \<and>
   generate_wallet_summary null_env one_wallet = Inl TypeError \<and>
   periodic_summary null_env one_wallet = [] \<and>
   cmd_summary null_env one_wallet = ([Reply (hourglass @ '' Analyse en cours...'')], Some TypeError) \<and>
   check_new_trades null_env one_wallet = (one_wallet, [])"
proof -
  have g: "generate_wallet_summary e t = Inl TypeError"
    if "w \<in> set (wallets t)" "py_iter (get_wallet_activity e (fst w) 50) = Inl err"
      "named_records e (wallets t) = []" for e t w err
  proof -
    from that(3) have "\<forall>w\<in>set (wallets t). wallet_records e w = []"
      by (auto simp: named_records_def)
    from not_iterable_raises [OF that(1,2) this, of "([], 0)"] show ?thesis
      by (simp add: generate_wallet_summary_def)
  qed
  have a: "get_wallet_activity null_env a l = JNull" for a l
    by (simp add: get_wallet_activity_def null_env_def env0_def)
  have n: "named_records null_env (wallets one_wallet) = []"
    by (simp add: named_records_def wallet_records_def one_wallet_def a)
  have m: "(''0xaaaaaaaaaa'', ''Alpha'') \<in> set (wallets one_wallet)" by (simp add: one_wallet_def)
  have i: "py_iter (get_wallet_activity null_env (fst (''0xaaaaaaaaaa'', ''Alpha'')) 50) = Inl TypeError"
    by (simp add: a)
  have c: "check_new_trades null_env one_wallet = (one_wallet, [])"
    by (simp add: check_new_trades_def check_wallet_def compact_def one_wallet_def a)
  from g [OF m i n] have "generate_wallet_summary null_env one_wallet = Inl TypeError" .
  with g n c show ?thesis
    by (auto simp: periodic_summary_def cmd_summary_def)
qed

theorem not_iterable_no_report_witness:
  "generate_wallet_summary null_env \<lparr>wallets = two_wallets, seen_txs = {}\<rparr> = Inl TypeError \<and>
   periodic_summary null_env \<lparr>wallets = two_wallets, seen_txs = {}\<rparr> = []"
proof -
  let ?t = "\<lparr>wallets = two_wallets, seen_txs = {}\<rparr>"
  have a: "get_wallet_activity null_env a l = JNull" for a l
    by (simp add: get_wallet_activity_def null_env_def env0_def)
  have 1: "(''0xbbbbbbbbbb'', ''Beta'') \<in> set (wallets ?t)" by (simp add: two_wallets_def)
  have 2: "py_iter (get_wallet_activity null_env (fst (''0xbbbbbbbbbb'', ''Beta'')) 50) = Inl TypeError"
    by (simp add: a)
  have 3: "named_records null_env (wallets ?t) = []"
    by (simp add: named_records_def wallet_records_def two_wallets_def a)
  from not_iterable_no_report 1 2 3 show ?thesis by blast
qed

subsection \<open>Malformed records\<close>

lemma py_float_deliver [simp]: "py_float (e\<lparr>deliver := d\<rparr>) v = py_float e v"
  by (cases v) simp_all

lemma py_str_deliver [simp]: "py_str (e\<lparr>deliver := d\<rparr>) v = py_str e v"
  by (cases v) simp_all

lemma trade_message_deliver [simp]:
  "trade_message (e\<lparr>deliver := d\<rparr>) name act = trade_message e name act"
  by (simp add: trade_message_def Let_def split: sum.splits)

lemma check_record_deliver [simp]:
  "check_record (e\<lparr>deliver := d\<rparr>) name act st = check_record e name act st"
  by (simp add: check_record_def Let_def split: sum.splits)

lemma check_activities_deliver [simp]:
  "check_activities (e\<lparr>deliver := d\<rparr>) name acts st = check_activities e name acts st"
  by (induction acts arbitrary: st) simp_all

lemma check_wallet_deliver [simp]: "check_wallet (e\<lparr>deliver := d\<rparr>) = check_wallet e"
  by (simp add: fun_eq_iff check_wallet_def get_wallet_activity_def split: sum.splits)

lemma check_new_trades_deliver:
  "check_new_trades (e\<lparr>deliver := d\<rparr>) t = check_new_trades e t"
  by (simp add: check_new_trades_def compact_def Let_def)

lemma py_float_default:
  "\<not> truthy (dict_get act k (JNum 0)) \<Longrightarrow>
   py_float e (py_or (dict_get act k (JNum 0)) (JNum 0)) = Inr (Float 0)"
  by (simp add: py_or_def)

lemma check_record_skip:
  "\<not> is_dict act \<or> dict_get act ''type'' JNull \<noteq> JStr ''TRADE'' \<or>
   \<not> truthy (dict_get act ''transactionHash'' (JStr '''')) \<Longrightarrow>
   check_record e name act st = (st, None)"
  by (auto simp: check_record_def Let_def)

lemma no_answer:
  "fetch e a l = Transport_error \<or> (\<exists>s b. fetch e a l = Response s b \<and> (s \<noteq> 200 \<or> b = None)) \<Longrightarrow>
   get_wallet_activity e a l = JArr []"
  by (auto simp: get_wallet_activity_def)

lemma check_activities_append:
  "check_activities e name (acts @ acts') st =
     (case check_activities e name acts st of
        (st', Some err) \<Rightarrow> (st', Some err)
      | (st', None) \<Rightarrow> check_activities e name acts' st')"
  by (induction acts arbitrary: st) (auto split: prod.splits option.splits)

text \<open>
  C7, as the code has it. A numeric field that is missing or false (null, empty, zero)
  counts as zero. A record that is not a dict, is not of type TRADE or has no usable
  hash (for the notifications) or title (for the summary) is skipped. A request that
  fails, or is answered with another status than 200 or with a body that is not JSON,
  gives no records, and the wallet changes nothing in either pass. Whether the channel
  accepts a message has no influence on the notification pass. In the notification pass
  an exception raised by a record of a wallet ends the records of that wallet for the
  pass, what was changed before it stays changed, and the wallets after it are processed
  from there.
\<close>

theorem malformed_recovery:
  "(\<not> truthy (dict_get act k (JNum 0)) \<longrightarrow>
      py_float e (py_or (dict_get act k (JNum 0)) (JNum 0)) = Inr (Float 0)) \<and>
   (\<not> is_dict act \<or> dict_get act ''type'' JNull \<noteq> JStr ''TRADE'' \<or>
    \<not> truthy (dict_get act ''transactionHash'' (JStr '''')) \<longrightarrow>
      check_record e name act st = (st, None)) \<and>
   (\<not> is_dict act \<or> dict_get act ''type'' JNull \<noteq> JStr ''TRADE'' \<or>
    \<not> truthy (dict_get act ''title'' (JStr '''')) \<longrightarrow>
      summary_record e a name act st' = Inr st') \<and>
   (fetch e a l = Transport_error \<or> (\<exists>s b. fetch e a l = Response s b \<and> (s \<noteq> 200 \<or> b = None)) \<longrightarrow>
      get_wallet_activity e a l = JArr []) \<and>
   (get_wallet_activity e (fst w) 5 = JArr [] \<longrightarrow> check_wallet e w st = st) \<and>
   (get_wallet_activity e (fst w) 50 = JArr [] \<longrightarrow> summary_wallet e w st' = Inr st') \<and>
   check_new_trades (e\<lparr>deliver := d\<rparr>) t = check_new_trades e t \<and>
   (py_iter (get_wallet_activity e (fst w) 5) = Inr (acts @ acts') \<longrightarrow>
      check_wallet e w st =
        (case check_activities e (snd w) acts st of
           (st1, Some err) \<Rightarrow> st1
         | (st1, None) \<Rightarrow> fst (check_activities e (snd w) acts' st1))) \<and>
   (wallets t = ws @ w # ws' \<longrightarrow>
      snd (check_new_trades e t) =
        snd (fold (check_wallet e) ws' (check_wallet e w (fold (check_wallet e) ws (seen_txs t, [])))))"
proof -
  have 1: "\<not> is_dict act \<or> dict_get act ''type'' JNull \<noteq> JStr ''TRADE'' \<or>
    \<not> truthy (dict_get act ''title'' (JStr '''')) \<longrightarrow> summary_record e a name act st' = Inr st'"
    using summary_record_skip [of act e a name st'] by (auto simp: qualifying_def)
  have 2: "py_iter (get_wallet_activity e (fst w) 5) = Inr (acts @ acts') \<longrightarrow>
      check_wallet e w st =
        (case check_activities e (snd w) acts st of
           (st1, Some err) \<Rightarrow> st1
         | (st1, None) \<Rightarrow> fst (check_activities e (snd w) acts' st1))"
    by (auto simp: check_wallet_def check_activities_append split: prod.splits option.splits)
  have 3: "wallets t = ws @ w # ws' \<longrightarrow>
      snd (check_new_trades e t) =
        snd (fold (check_wallet e) ws' (check_wallet e w (fold (check_wallet e) ws (seen_txs t, []))))"
    by (simp add: check_new_trades_def Let_def)
  have 4: "get_wallet_activity e (fst w) 5 = JArr [] \<longrightarrow> check_wallet e w st = st"
    by (simp add: check_wallet_def)
  have 5: "get_wallet_activity e (fst w) 50 = JArr [] \<longrightarrow> summary_wallet e w st' = Inr st'"
    by (simp add: summary_wallet_def)
  show ?thesis
    using py_float_default [of act k e] check_record_skip [of act e name st] no_answer [of e a l]
      check_new_trades_deliver [of d e t] 1 2 3 4 5
    by blast
qed

theorem malformed_recovery_witness:
  "py_float env0 (py_or (dict_get (JObj [(''type'', JStr ''TRADE''), (''title'', JStr ''M1'')])
      ''usdcSize'' (JNum 0)) (JNum 0)) = Inr (Float 0) \<and>
   check_record env0 ''Alpha'' (JStr ''oops'') ({}, []) = (({}, []), None) \<and>
   summary_record env0 ''0xaaaaaaaaaa'' ''Alpha'' (JStr ''oops'') ([], 0) = Inr ([], 0) \<and>
   get_wallet_activity env0 ''0xaaaaaaaaaa'' 5 = JArr [] \<and>
   check_wallet env0 (''0xaaaaaaaaaa'', ''Alpha'') ({}, []) = ({}, []) \<and>
   summary_wallet env0 (''0xaaaaaaaaaa'', ''Alpha'') ([], 0) = Inr ([], 0) \<and>
   check_new_trades (env0\<lparr>deliver := (\<lambda>message. False)\<rparr>) \<lparr>wallets = two_wallets, seen_txs = {}\<rparr> =
     check_new_trades env0 \<lparr>wallets = two_wallets, seen_txs = {}\<rparr>"
proof -
  let ?act = "JObj [(''type'', JStr ''TRADE''), (''title'', JStr ''M1'')]"
  let ?w = "(''0xaaaaaaaaaa'', ''Alpha'')"
  have f: "fetch env0 ''0xaaaaaaaaaa'' 5 = Transport_error" "fetch env0 ''0xaaaaaaaaaa'' 50 = Transport_error"
    by (simp_all add: env0_def)
  have g: "get_wallet_activity env0 (fst ?w) 5 = JArr []" "get_wallet_activity env0 (fst ?w) 50 = JArr []"
    by (simp_all add: get_wallet_activity_def f)
  have a: "\<not> truthy (dict_get ?act ''usdcSize'' (JNum 0))" by simp
  have b: "\<not> is_dict (JStr ''oops'')" by simp
  from malformed_recovery [of ?act "''usdcSize''" env0] a
  have 1: "py_float env0 (py_or (dict_get ?act ''usdcSize'' (JNum 0)) (JNum 0)) = Inr (Float 0)" by blast
  from malformed_recovery [of "JStr ''oops''" _ env0 "''Alpha''" "({}, [])" "''0xaaaaaaaaaa''" "([], 0)"] b
  have 2: "check_record env0 ''Alpha'' (JStr ''oops'') ({}, []) = (({}, []), None)"
    and 3: "summary_record env0 ''0xaaaaaaaaaa'' ''Alpha'' (JStr ''oops'') ([], 0) = Inr ([], 0)"
    by blast+
  from malformed_recovery [of _ _ env0 _ "({}, [])" "''0xaaaaaaaaaa''" "([], 0)" 5 ?w] f g
  have 4: "get_wallet_activity env0 ''0xaaaaaaaaaa'' 5 = JArr []"
    and 5: "check_wallet env0 ?w ({}, []) = ({}, [])"
    and 6: "summary_wallet env0 ?w ([], 0) = Inr ([], 0)"
    by blast+
  from malformed_recovery [of _ _ env0 _ _ _ _ _ _ "\<lambda>message. False" "\<lparr>wallets = two_wallets, seen_txs = {}\<rparr>"]
  have 7: "check_new_trades (env0\<lparr>deliver := (\<lambda>message. False)\<rparr>) \<lparr>wallets = two_wallets, seen_txs = {}\<rparr> =
     check_new_trades env0 \<lparr>wallets = two_wallets, seen_txs = {}\<rparr>"
    by blast
  from 1 2 3 4 5 6 7 show ?thesis by blast
qed

text \<open>
  C7 as stated fails. A size that is not a number is not replaced by zero:
  \<^verbatim>\<open>float("abc")\<close> raises. In the summary pass nothing catches it before
  \<open>periodic_summary\<close> does: the pass is aborted and nothing is sent, though Alpha's
  second record and Beta's record are well-formed. In the notification pass the
  \<^verbatim>\<open>try\<close> around the wallet catches it: Beta's trade is notified, but Alpha's second
  trade is not looked at in this pass, and the hash of the malformed record is marked
  as seen without a notification.
\<close>

theorem malformed_record_aborts:
  "generate_wallet_summary malformed_env \<lparr>wallets = two_wallets, seen_txs = {}\<rparr> = Inl ValueError \<and>
   periodic_summary malformed_env \<lparr>wallets = two_wallets, seen_txs = {}\<rparr> = [] \<and>
   fst (check_new_trades malformed_env \<lparr>wallets = two_wallets, seen_txs = {}\<rparr>) =
     \<lparr>wallets = two_wallets, seen_txs = {JStr ''0x21'', JStr ''0x23''}\<rparr> \<and>
   map fst (snd (check_new_trades malformed_env \<lparr>wallets = two_wallets, seen_txs = {}\<rparr>)) = [JStr ''0x23'']"
  by code_simp

subsection \<open>The notification pass\<close>

lemma grows_refl: "grows st st"
  by (simp add: grows_def)

lemma grows_trans:
  assumes "grows a b" and "grows b c"
  shows "grows a c"
proof -
  from assms(1) obtain n1 where 1: "fst a \<subseteq> fst b" "snd b = snd a @ n1" "distinct (map fst n1)"
    "set (map fst n1) \<subseteq> fst b - fst a"
    unfolding grows_def by blast
  from assms(2) obtain n2 where 2: "fst b \<subseteq> fst c" "snd c = snd b @ n2" "distinct (map fst n2)"
    "set (map fst n2) \<subseteq> fst c - fst b"
    unfolding grows_def by blast
  have d: "set (map fst n1) \<inter> set (map fst n2) = {}" using 1(4) 2(4) by blast
  have "snd c = snd a @ (n1 @ n2)" using 1 2 by simp
  moreover have "distinct (map fst (n1 @ n2))" using 1(3) 2(3) d by simp
  moreover have "set (map fst n1) \<union> set (map fst n2) \<subseteq> fst c - fst a"
    using 1(1,4) 2(1,4) by blast
  then have "set (map fst (n1 @ n2)) \<subseteq> fst c - fst a" by simp
  moreover have "fst a \<subseteq> fst c" using 1 2 by auto
  ultimately show ?thesis unfolding grows_def by blast
qed

lemma check_record_grows: "grows st (fst (check_record e name act st))"
  by (cases st) (auto simp: check_record_def grows_def Let_def split: sum.splits)

lemma check_activities_grows: "grows st (fst (check_activities e name acts st))"
proof (induction acts arbitrary: st)
  case Nil
  then show ?case by (simp add: grows_refl)
next
  case (Cons act acts)
  obtain st' err where r: "check_record e name act st = (st', err)" by (cases "check_record e name act st")
  have g: "grows st st'" using check_record_grows [of st e name act] r by simp
  show ?case
  proof (cases err)
    case None
    with r Cons.IH [of st'] g show ?thesis by (auto intro: grows_trans)
  next
    case (Some x)
    with r g show ?thesis by simp
  qed
qed

lemma check_wallet_grows: "grows st (check_wallet e w st)"
  by (auto simp: check_wallet_def grows_refl check_activities_grows split: sum.splits)

lemma fold_check_wallet_grows: "grows st (fold (check_wallet e) ws st)"
proof (induction ws arbitrary: st)
  case Nil
  then show ?case by (simp add: grows_refl)
next
  case (Cons w ws)
  from check_wallet_grows [of st e w] Cons.IH [of "check_wallet e w st"] show ?case
    by (auto intro: grows_trans)
qed

lemma check_new_trades_notes:
  "distinct (map fst (snd (check_new_trades e t))) \<and>
   set (map fst (snd (check_new_trades e t))) \<inter> seen_txs t = {} \<and>
   seen_txs t \<union> set (map fst (snd (check_new_trades e t))) \<subseteq> pass_seen e t \<and>
   wallets (fst (check_new_trades e t)) = wallets t \<and>
   seen_txs (fst (check_new_trades e t)) = compact e (pass_seen e t)"
  using fold_check_wallet_grows [of "(seen_txs t, [])" e "wallets t"]
  by (auto simp: check_new_trades_def pass_seen_def grows_def Let_def)

lemma compact_small: "card s \<le> 2000 \<Longrightarrow> compact e s = s"
  by (simp add: compact_def)

lemma check_passes_no_eviction:
  assumes "no_eviction es t"
  shows "distinct (map fst (snd (check_passes es t))) \<and>
         set (map fst (snd (check_passes es t))) \<inter> seen_txs t = {} \<and>
         seen_txs t \<union> set (map fst (snd (check_passes es t))) \<subseteq> seen_txs (fst (check_passes es t))"
  using assms
proof (induction es arbitrary: t)
  case Nil
  then show ?case by simp
next
  case (Cons e es)
  let ?r = "check_new_trades e t"
  from Cons.prems have c: "card (pass_seen e t) \<le> 2000" and n: "no_eviction es (fst ?r)" by simp_all
  note p = check_new_trades_notes [of e t]
  from p c have s: "seen_txs (fst ?r) = pass_seen e t" by (simp add: compact_small)
  note ih = Cons.IH [OF n]
  let ?a = "map fst (snd ?r)" and ?b = "map fst (snd (check_passes es (fst ?r)))"
  have 1: "distinct ?a" "set ?a \<inter> seen_txs t = {}" "seen_txs t \<union> set ?a \<subseteq> pass_seen e t"
    using p by blast+
  have 2: "distinct ?b" "set ?b \<inter> pass_seen e t = {}"
    "pass_seen e t \<union> set ?b \<subseteq> seen_txs (fst (check_passes es (fst ?r)))"
    using ih s by simp_all
  have "set ?a \<inter> set ?b = {}" using 1(3) 2(2) by blast
  then have "distinct (?a @ ?b)" using 1(1) 2(1) by simp
  moreover have "(set ?a \<union> set ?b) \<inter> seen_txs t = {}" using 1(2,3) 2(2) by blast
  then have "set (?a @ ?b) \<inter> seen_txs t = {}" by simp
  moreover have "seen_txs t \<union> (set ?a \<union> set ?b) \<subseteq> seen_txs (fst (check_passes es (fst ?r)))"
    using 1(3) 2(3) by blast
  then have "seen_txs t \<union> set (?a @ ?b) \<subseteq> seen_txs (fst (check_passes es (fst ?r)))" by simp
  ultimately show ?case by (simp add: Let_def)
qed

lemma check_passes_append:
  "check_passes (es @ es') t =
     (let r = check_passes es t; r' = check_passes es' (fst r) in (fst r', snd r @ snd r'))"
  by (induction es arbitrary: t) (simp_all add: Let_def)

text \<open>
  The compaction keeps exactly 1000 of the hashes it had, whenever it runs and
  \<^verbatim>\<open>list(self.seen_txs)\<close> lists the set (each element once).
\<close>

lemma compact_size:
  assumes "card s > 2000" and "distinct (list_of_keys e s)" and "set (list_of_keys e s) = s"
  shows "card (compact e s) = 1000 \<and> compact e s \<subseteq> s"
proof -
  let ?l = "list_of_keys e s"
  have len: "length ?l = card s" using assms(2,3) distinct_card by fastforce
  have "distinct (py_last 1000 ?l)" using assms(2) by (simp add: py_last_def)
  then have "card (set (py_last 1000 ?l)) = length (py_last 1000 ?l)" by (rule distinct_card)
  also have "\<dots> = 1000" using len assms(1) by (simp add: py_last_def)
  finally have "card (compact e s) = 1000" using assms(1) by (simp add: compact_def)
  moreover have "set (py_last 1000 ?l) \<subseteq> set ?l" by (simp add: py_last_def set_drop_subset)
  then have "compact e s \<subseteq> s" using assms(1,3) by (simp add: compact_def)
  ultimately show ?thesis by simp
qed

subsection \<open>The scenario\<close>

lemma nat_of_str_nat: "nat_of_str (str_nat n) = n"
proof (induction n rule: str_nat.induct)
  case (1 n)
  show ?case
  proof (cases "n < 10")
    case True
    then show ?thesis by (subst str_nat.simps) (simp add: nat_of_str_def)
  next
    case False
    have "nat_of_str (str_nat n) = 10 * nat_of_str (str_nat (n div 10)) + n mod 10"
      using False by (subst str_nat.simps) (simp add: nat_of_str_def)
    with 1 False show ?thesis by simp
  qed
qed

lemma tx_inj [simp]: "tx i = tx j \<longleftrightarrow> i = j"
  by (metis nat_of_str_nat same_append_eq tx_def)

lemma tx_key_inj [simp]: "tx_key i = tx_key j \<longleftrightarrow> i = j"
  by (simp add: tx_key_def)

lemma inj_tx_key: "inj tx_key"
  by (simp add: inj_on_def)

lemma trade_message_trade:
  "to_float e usdc \<noteq> None \<Longrightarrow> to_float e price \<noteq> None \<Longrightarrow>
   \<exists>msg. trade_message e name (trade h side title usdc price outcome) = Inr msg"
  by (auto simp: trade_message_def trade_def py_or_def Let_def)

lemma check_record_trade_no:
  assumes "to_float e 100 \<noteq> None" and "to_float e (1/2) \<noteq> None"
  shows "check_record e name (trade_no i) (seen, out) =
     (if tx_key i \<in> seen then ((seen, out), None)
      else ((insert (tx_key i) seen, out @ [alert e name i]), None))"
proof -
  obtain msg where m: "trade_message e name (trade_no i) = Inr msg"
    unfolding trade_no_def using trade_message_trade [OF assms] by blast
  have "tx i \<noteq> []" by (simp add: tx_def)
  then show ?thesis
    using m by (simp add: check_record_def alert_def tx_key_def Let_def) (simp add: trade_no_def trade_def)
qed

lemma check_activities_trades:
  assumes "distinct js" and "to_float e 100 \<noteq> None" and "to_float e (1/2) \<noteq> None"
  shows "check_activities e name (map trade_no js) (seen, out) =
           ((seen \<union> tx_key ` set js, out @ map (alert e name) (filter (\<lambda>i. tx_key i \<notin> seen) js)), None)"
  using assms
proof (induction js arbitrary: seen out)
  case Nil
  then show ?case by simp
next
  case (Cons i js)
  then have d: "distinct js" and ni: "i \<notin> set js" by simp_all
  have f: "filter (\<lambda>j. j \<noteq> i \<and> tx_key j \<notin> seen) js = filter (\<lambda>j. tx_key j \<notin> seen) js"
    using ni by (intro filter_cong) auto
  show ?case
    by (simp add: check_record_trade_no [OF Cons.prems(2,3)] Cons.IH [OF d Cons.prems(2,3)] f insert_absorb)
qed

lemma feed_to_float: "to_float (feed order acts) x \<noteq> None"
  by (simp add: feed_def env0_def)

lemma feed_activity: "py_iter (get_wallet_activity (feed order acts) wallet limit) = Inr acts"
  by (simp add: get_wallet_activity_def feed_def env0_def)

lemma feed_alert: "alert (feed order acts) name i = alert env0 name i"
  by (simp add: alert_def trade_message_def feed_def env0_def trade_no_def trade_def py_or_def Let_def)

lemma feed_keys: "list_of_keys (feed order acts) = order"
  by (simp add: feed_def)

lemma fst_alert: "map fst (map (alert e name) js) = map tx_key js"
  by (simp add: alert_def)

lemma card_tx_keys: "card (tx_key ` {..<n}) = n"
  by (simp add: card_image inj_on_def)

lemma tx_key_mem: "tx_key i \<in> tx_key ` s \<longleftrightarrow> i \<in> s"
  by auto

lemma pass_trades:
  assumes "wallets t = [(a, name)]" and "distinct js"
  shows "fold (check_wallet (feed order (map trade_no js))) (wallets t) (seen_txs t, []) =
           (seen_txs t \<union> tx_key ` set js,
            map (alert env0 name) (filter (\<lambda>i. tx_key i \<notin> seen_txs t) js))"
  using assms
  by (simp add: check_wallet_def feed_activity check_activities_trades [OF _ feed_to_float feed_to_float]
        feed_alert)

lemma pass_feed:
  assumes "wallets t = [(a, name)]" and "distinct js"
  shows "check_new_trades (feed order (map trade_no js)) t =
           (t\<lparr>seen_txs := compact (feed order (map trade_no js)) (seen_txs t \<union> tx_key ` set js)\<rparr>,
            map (alert env0 name) (filter (\<lambda>i. tx_key i \<notin> seen_txs t) js)) \<and>
         pass_seen (feed order (map trade_no js)) t = seen_txs t \<union> tx_key ` set js"
  unfolding check_new_trades_def pass_seen_def Let_def pass_trades [OF assms] by simp

lemma window_new:
  "filter (\<lambda>i. tx_key i \<notin> tx_key ` {..<j}) (rev [j - 4..<Suc j]) = [j]"
proof -
  have "filter (\<lambda>i. \<not> i < j) [j - 4..<j] = []" by (auto simp: filter_empty_conv)
  then show ?thesis by (simp add: tx_key_mem flip: rev_filter)
qed

lemma window_set: "tx_key ` {..<j} \<union> tx_key ` set (rev [j - 4..<Suc j]) = tx_key ` {..<Suc j}"
  by auto

lemma pass_window:
  assumes "wallets t = [(a, name)]" and "seen_txs t = tx_key ` {..<j}"
  shows "check_new_trades (feed order (window j)) t =
           (t\<lparr>seen_txs := compact (feed order (window j)) (tx_key ` {..<Suc j})\<rparr>, [alert env0 name j])"
proof -
  have d: "distinct (rev [j - 4..<Suc j])" by simp
  show ?thesis
    unfolding check_new_trades_def window_def pass_trades [OF assms(1) d] Let_def
    by (simp only: assms(2) window_new window_set fst_conv snd_conv list.map)
qed

lemma passes_window:
  "n \<le> 2000 \<Longrightarrow>
   check_passes (map (\<lambda>j. feed order (window j)) [0..<n]) one_wallet =
     (one_wallet\<lparr>seen_txs := tx_key ` {..<n}\<rparr>, map (alert env0 ''Alpha'') [0..<n])"
proof (induction n)
  case 0
  then show ?case by (simp add: one_wallet_def)
next
  case (Suc n)
  let ?t = "one_wallet\<lparr>seen_txs := tx_key ` {..<n}\<rparr>"
  have w: "wallets ?t = [(''0xaaaaaaaaaa'', ''Alpha'')]" and s: "seen_txs ?t = tx_key ` {..<n}"
    by (simp_all add: one_wallet_def)
  have c: "compact (feed order (window n)) (tx_key ` {..<Suc n}) = tx_key ` {..<Suc n}"
    using Suc.prems by (intro compact_small) (simp only: card_tx_keys)
  from Suc have ih: "check_passes (map (\<lambda>j. feed order (window j)) [0..<n]) one_wallet =
     (?t, map (alert env0 ''Alpha'') [0..<n])" by simp
  show ?case
    by (simp add: check_passes_append ih pass_window [OF w s] c Let_def)
qed

lemma py_last_upt: "k \<le> n \<Longrightarrow> py_last k (map f [0..<n]) = map f [n - k..<n]"
  by (simp add: py_last_def drop_map)

lemma py_last_rev_upt: "k \<le> n \<Longrightarrow> py_last k (rev (map f [0..<n])) = rev (map f [0..<k])"
  by (simp add: py_last_def drop_rev take_map)

lemma oldest_first_all: "oldest_first (tx_key ` {..<2001}) = map tx_key [0..<2001]"
  unfolding oldest_first_def by (rule filter_True) auto

lemma compact_oldest_first:
  "compact (feed oldest_first acts) (tx_key ` {..<2001}) = tx_key ` {1001..<2001}"
proof -
  have "py_last 1000 (map tx_key [0..<2001]) = map tx_key [2001 - 1000..<2001]"
    by (rule py_last_upt) simp
  then have "set (py_last 1000 (map tx_key [0..<2001])) = tx_key ` {1001..<2001}"
    by (simp del: upt_rec_numeral)
  then show ?thesis
    by (simp add: compact_def card_tx_keys feed_keys oldest_first_all del: upt_rec_numeral)
qed

lemma compact_newest_first:
  "compact (feed newest_first acts) (tx_key ` {..<2001}) = tx_key ` {..<1000}"
proof -
  have "py_last 1000 (rev (map tx_key [0..<2001])) = rev (map tx_key [0..<1000])"
    by (rule py_last_rev_upt) simp
  then have "set (py_last 1000 (rev (map tx_key [0..<2001]))) = tx_key ` {..<1000}"
    by (simp add: atLeast0LessThan del: upt_rec_numeral)
  then show ?thesis
    by (simp add: compact_def card_tx_keys feed_keys newest_first_def oldest_first_all del: upt_rec_numeral)
qed

lemma count_upt: "i < n \<Longrightarrow> count_list [0..<n] i = 1"
  by (induction n) (auto simp: less_Suc_eq)

lemma passes_compacting:
  "check_passes (map (\<lambda>j. feed order (window j)) [0..<Suc 2000]) one_wallet =
     (one_wallet\<lparr>seen_txs := compact (feed order (window 2000)) (tx_key ` {..<Suc 2000})\<rparr>,
      map (alert env0 ''Alpha'') [0..<Suc 2000])"
proof -
  let ?t = "one_wallet\<lparr>seen_txs := tx_key ` {..<2000}\<rparr>"
  have w: "wallets ?t = [(''0xaaaaaaaaaa'', ''Alpha'')]" and s: "seen_txs ?t = tx_key ` {..<2000}"
    by (simp_all add: one_wallet_def)
  have p: "check_passes (map (\<lambda>j. feed order (window j)) [0..<2000]) one_wallet =
             (?t, map (alert env0 ''Alpha'') [0..<2000])"
    by (rule passes_window) simp
  have u: "[0..<Suc 2000] = [0..<2000] @ [2000]" by (rule upt_Suc_append) simp
  show ?thesis
    unfolding u map_append
    by (simp add: check_passes_append p pass_window [OF w s] Let_def del: upt_rec_numeral)
qed

lemma fst_comp_alert: "fst \<circ> alert e name = tx_key"
  by (simp add: fun_eq_iff alert_def)

lemma fst_alert_one: "fst (alert e name i) = tx_key i"
  by (simp add: alert_def)

lemma passes_oldest_first:
  "check_passes (map (\<lambda>j. feed oldest_first (window j)) [0..<2001]) one_wallet =
     (one_wallet\<lparr>seen_txs := tx_key ` {1001..<2001}\<rparr>, map (alert env0 ''Alpha'') [0..<2001])"
proof -
  have e: "(2001::nat) = Suc 2000" by simp
  have "compact (feed oldest_first (window 2000)) (tx_key ` {..<Suc 2000}) = tx_key ` {1001..<Suc 2000}"
    using compact_oldest_first [of "window 2000"] by (simp only: e)
  then show ?thesis unfolding e by (simp only: passes_compacting)
qed

lemma passes_newest_first:
  "check_passes (map (\<lambda>j. feed newest_first (window j)) [0..<2001]) one_wallet =
     (one_wallet\<lparr>seen_txs := tx_key ` {..<1000}\<rparr>, map (alert env0 ''Alpha'') [0..<2001])"
proof -
  have e: "(2001::nat) = Suc 2000" by simp
  have "compact (feed newest_first (window 2000)) (tx_key ` {..<Suc 2000}) = tx_key ` {..<1000}"
    using compact_newest_first [of "window 2000"] by (simp only: e)
  then show ?thesis unfolding e by (simp only: passes_compacting)
qed

subsection \<open>At most one notification\<close>

text \<open>
  C1, as the code has it. In every pass the hashes notified are distinct and none of
  them was in \<^verbatim>\<open>seen_txs\<close> when the pass began: a hash in the set is not notified.
  Over successive passes none of which compacts the set, every hash is notified at most
  once, and the set holds every hash it had and every hash notified.
\<close>

theorem notified_once_while_tracked:
  "distinct (map fst (snd (check_new_trades e t))) \<and>
   set (map fst (snd (check_new_trades e t))) \<inter> seen_txs t = {} \<and>
   (no_eviction es t \<longrightarrow>
      distinct (map fst (snd (check_passes es t))) \<and>
      set (map fst (snd (check_passes es t))) \<inter> seen_txs t = {} \<and>
      seen_txs t \<union> set (map fst (snd (check_passes es t))) \<subseteq> seen_txs (fst (check_passes es t)))"
  using check_new_trades_notes [of e t] check_passes_no_eviction [of es t] by blast

theorem notified_once_while_tracked_witness:
  "no_eviction [feed oldest_first (window 0), feed oldest_first (window 1), feed oldest_first (window 1)]
     one_wallet \<and>
   map fst (snd (check_passes
     [feed oldest_first (window 0), feed oldest_first (window 1), feed oldest_first (window 1)]
     one_wallet)) = [tx_key 0, tx_key 1] \<and>
   distinct (map fst (snd (check_passes
     [feed oldest_first (window 0), feed oldest_first (window 1), feed oldest_first (window 1)]
     one_wallet)))"
proof -
  let ?es = "[feed oldest_first (window 0), feed oldest_first (window 1), feed oldest_first (window 1)]"
  have w0: "window 0 = map trade_no [0]" and w1: "window 1 = map trade_no [1, 0]"
    by (simp_all add: window_def)
  have c: "card {tx_key 0} \<le> 2000" "card {tx_key 1, tx_key 0} \<le> 2000" by simp_all
  have p0: "check_new_trades (feed oldest_first (window 0)) one_wallet =
              (one_wallet\<lparr>seen_txs := {tx_key 0}\<rparr>, [alert env0 ''Alpha'' 0])"
    and s0: "pass_seen (feed oldest_first (window 0)) one_wallet = {tx_key 0}"
    unfolding w0 using pass_feed [of one_wallet _ "''Alpha''" "[0]" oldest_first] c
    by (simp_all add: one_wallet_def compact_small)
  let ?t1 = "one_wallet\<lparr>seen_txs := {tx_key 0}\<rparr>"
  have p1: "check_new_trades (feed oldest_first (window 1)) ?t1 =
              (one_wallet\<lparr>seen_txs := {tx_key 1, tx_key 0}\<rparr>, [alert env0 ''Alpha'' 1])"
    and s1: "pass_seen (feed oldest_first (window 1)) ?t1 = {tx_key 1, tx_key 0}"
    unfolding w1 using pass_feed [of ?t1 _ "''Alpha''" "[1, 0]" oldest_first] c
    by (simp_all add: one_wallet_def compact_small)
  let ?t2 = "one_wallet\<lparr>seen_txs := {tx_key 1, tx_key 0}\<rparr>"
  have p2: "check_new_trades (feed oldest_first (window 1)) ?t2 = (?t2, [])"
    and s2: "pass_seen (feed oldest_first (window 1)) ?t2 = {tx_key 1, tx_key 0}"
    unfolding w1 using pass_feed [of ?t2 _ "''Alpha''" "[1, 0]" oldest_first] c
    by (simp_all add: one_wallet_def compact_small)
  have n: "no_eviction ?es one_wallet"
    using c by (simp add: p0 s0 p1 s1 p2 s2 del: One_nat_def)
  have m: "map fst (snd (check_passes ?es one_wallet)) = [tx_key 0, tx_key 1]"
    by (simp add: p0 p1 p2 Let_def fst_alert_one del: One_nat_def)
  from notified_once_while_tracked [of "feed oldest_first (window 0)" one_wallet ?es] n
  have "distinct (map fst (snd (check_passes ?es one_wallet)))" by blast
  with n m show ?thesis by blast
qed

text \<open>
  C1 as stated fails across a compaction. The wallet makes one trade before each of
  2001 polls; the hash of trade 0 is in the set after the first pass. The pass of the
  last poll ends with 2001 hashes and compacts the set; even where the set iterates
  oldest first, so that the 1000 newest hashes are kept, the hash of trade 0 is dropped.
  When a later poll is answered with trade 0, trade 0 is notified a second time.
\<close>

theorem evicted_hash_notified_again:
  "tx_key 0 \<in> seen_txs (fst (check_passes [feed oldest_first (window 0)] one_wallet)) \<and>
   count_list (map fst (snd (check_passes
      (map (\<lambda>j. feed oldest_first (window j)) [0..<2001] @ [feed oldest_first [trade_no 0]])
      one_wallet))) (tx_key 0) = 2"
proof -
  have "check_passes (map (\<lambda>j. feed oldest_first (window j)) [0..<1]) one_wallet =
          (one_wallet\<lparr>seen_txs := tx_key ` {..<1}\<rparr>, map (alert env0 ''Alpha'') [0..<1])"
    by (rule passes_window) simp
  then have a: "tx_key 0 \<in> seen_txs (fst (check_passes [feed oldest_first (window 0)] one_wallet))"
    by simp
  let ?t = "one_wallet\<lparr>seen_txs := tx_key ` {1001..<2001}\<rparr>"
  have w: "wallets ?t = [(''0xaaaaaaaaaa'', ''Alpha'')]" by (simp add: one_wallet_def)
  have d: "distinct [0::nat]" by simp
  have "snd (check_new_trades (feed oldest_first (map trade_no [0])) ?t) = [alert env0 ''Alpha'' 0]"
    unfolding check_new_trades_def Let_def pass_trades [OF w d]
    by (simp add: tx_key_mem)
  then have "snd (check_passes
      (map (\<lambda>j. feed oldest_first (window j)) [0..<2001] @ [feed oldest_first [trade_no 0]])
      one_wallet) = map (alert env0 ''Alpha'') [0..<2001] @ [alert env0 ''Alpha'' 0]"
    by (simp add: check_passes_append passes_oldest_first Let_def del: upt_rec_numeral)
  then have "count_list (map fst (snd (check_passes
      (map (\<lambda>j. feed oldest_first (window j)) [0..<2001] @ [feed oldest_first [trade_no 0]])
      one_wallet))) (tx_key 0) = count_list (map tx_key [0..<2001]) (tx_key 0) + 1"
    by (simp add: fst_comp_alert fst_alert_one del: upt_rec_numeral)
  also have "count_list (map tx_key [0..<2001]) (tx_key 0) = count_list [0..<2001] 0"
    by (rule count_list_map_conv) (rule inj_tx_key)
  also have "\<dots> = 1" by (rule count_upt) simp
  finally show ?thesis using a by simp
qed

subsection \<open>What the compaction keeps\<close>

text \<open>
  C2 fails on the code. \<^verbatim>\<open>list(self.seen_txs)[-1000:]\<close> takes the last 1000 hashes in
  the iteration order of the set, which is not the order of insertion. In a runtime
  where the set iterates newest first, the compaction after the 2001 polls keeps the
  1000 oldest hashes, those of trades 0 to 999, and drops the 1001 most recent ones; the
  next poll is answered with the same five latest trades, 2000 down to 1996, and all
  five are notified again.
\<close>

theorem compaction_keeps_oldest:
  "seen_txs (fst (check_passes (map (\<lambda>j. feed newest_first (window j)) [0..<2001]) one_wallet)) =
     tx_key ` {..<1000} \<and>
   card (seen_txs (fst (check_passes (map (\<lambda>j. feed newest_first (window j)) [0..<2001]) one_wallet))) =
     1000 \<and>
   map fst (snd (check_passes (map (\<lambda>j. feed newest_first (window j)) [0..<2001]) one_wallet)) =
     map tx_key [0..<2001] \<and>
   map fst (snd (check_new_trades (feed newest_first (window 2000))
      (fst (check_passes (map (\<lambda>j. feed newest_first (window j)) [0..<2001]) one_wallet)))) =
     [tx_key 2000, tx_key 1999, tx_key 1998, tx_key 1997, tx_key 1996]"
proof -
  let ?t = "one_wallet\<lparr>seen_txs := tx_key ` {..<1000}\<rparr>"
  have w: "wallets ?t = [(''0xaaaaaaaaaa'', ''Alpha'')]" by (simp add: one_wallet_def)
  have d: "distinct (rev [2000 - 4..<Suc 2000])" by simp
  have "snd (check_new_trades (feed newest_first (window 2000)) ?t) =
          map (alert env0 ''Alpha'') [2000, 1999, 1998, 1997, 1996]"
    unfolding check_new_trades_def Let_def window_def pass_trades [OF w d]
    by (simp add: tx_key_mem)
  then show ?thesis
    by (simp add: passes_newest_first fst_comp_alert fst_alert_one card_tx_keys del: upt_rec_numeral)
qed

end
